theory Spec2Isabelle
  imports Complex_Main "HOL-Library.Sublist" "HOL-Library.Log_Nat"
begin

section \<open>Strings of the runtime\<close>

text \<open>
  A JavaScript string is a sequence of UTF-16 code units. The model uses \<open>string\<close>, whose
  characters are the code units below 256 (the ISO-8859-1 range); \<open>length\<close> is the
  \<open>.length\<close> of the source. \<open>toLowerCase\<close> is the runtime's lower-casing on that range:
  \<open>A..Z\<close> and \<open>0xC0..0xDE\<close> apart from the multiplication sign \<open>0xD7\<close> move up by 32.
\<close>

definition toLowerChar :: "char \<Rightarrow> char" where
  "toLowerChar c =
     (let n = (of_char c :: nat) in
      if (65 \<le> n \<and> n \<le> 90) \<or> (192 \<le> n \<and> n \<le> 222 \<and> n \<noteq> 215)
      then char_of (n + 32) else c)"

definition toLowerCase :: "string \<Rightarrow> string" where
  "toLowerCase s = map toLowerChar s"

text \<open>\<open>s.startsWith(p)\<close> and \<open>s.includes(p)\<close>, the latter by scanning the start positions.\<close>

definition startsWith :: "string \<Rightarrow> string \<Rightarrow> bool" where
  "startsWith s p = (take (length p) s = p)"

fun includes_str :: "string \<Rightarrow> string \<Rightarrow> bool" where
  "includes_str [] p = (p = [])"
| "includes_str (c # cs) p = (startsWith (c # cs) p \<or> includes_str cs p)"

text \<open>\<open>s.split(sep)\<close> for a one-character separator: never empty, one more piece than
  there are separators.\<close>

fun split_chr :: "char \<Rightarrow> string \<Rightarrow> string list" where
  "split_chr sep [] = [[]]"
| "split_chr sep (c # cs) =
     (if c = sep then [] # split_chr sep cs
      else (case split_chr sep cs of
              [] \<Rightarrow> [[c]]
            | p # ps \<Rightarrow> (c # p) # ps))"

text \<open>\<open>xs.join(sep)\<close>.\<close>

fun join_str :: "string \<Rightarrow> string list \<Rightarrow> string" where
  "join_str sep [] = []"
| "join_str sep [x] = x"
| "join_str sep (x # y # ys) = x @ sep @ join_str sep (y # ys)"

section \<open>Thrown values\<close>

text \<open>
  What the pipeline throws and catches: \<open>Error\<close> objects with their message, and the
  \<open>ProgressEvent\<close> a \<open>FileReader\<close> rejects with, which has no \<open>message\<close> property.
  \<open>err_message\<close> is \<open>err.message || ""\<close> of the catch block.
\<close>

datatype js_error = Error string | ProgressEvent

fun err_message :: "js_error \<Rightarrow> string" where
  "err_message (Error m) = m"
| "err_message ProgressEvent = []"

section \<open>Error classification (the catch block of startAnalysis)\<close>

text \<open>
  The value \<open>JSON.parse\<close> returns. \<open>JSON.parse\<close> itself belongs to the runtime and is a
  parameter \<open>parseJson\<close> of the model (\<open>None\<close> when it throws); a \<open>JObj\<close> lists the own
  properties of the object, one entry per key.
\<close>

datatype json =
    JNull
  | JBool bool
  | JNum real
  | JStr string
  | JArr "json list"
  | JObj "(string \<times> json) list"

text \<open>Reading the property \<open>error\<close> or \<open>message\<close> with optional chaining: \<open>None\<close> is
  \<open>undefined\<close>. Only objects carry these two properties.\<close>

fun get_prop :: "json option \<Rightarrow> string \<Rightarrow> json option" where
  "get_prop (Some (JObj kvs)) k = map_of kvs k"
| "get_prop _ k = None"

fun truthy :: "json option \<Rightarrow> bool" where
  "truthy None = False"
| "truthy (Some JNull) = False"
| "truthy (Some (JBool b)) = b"
| "truthy (Some (JNum x)) = (x \<noteq> 0)"
| "truthy (Some (JStr s)) = (s \<noteq> [])"
| "truthy (Some (JArr xs)) = True"
| "truthy (Some (JObj kvs)) = True"

text \<open>
  Lines 118-123: the working message. When the raw message starts with a brace or a
  bracket and parses, it becomes \<open>parsed?.error?.message || parsed?.message || rawMsg\<close>,
  which need not be a string.
\<close>

definition unwrapMsg :: "(string \<Rightarrow> json option) \<Rightarrow> string \<Rightarrow> json" where
  "unwrapMsg parseJson rawMsg =
     (if startsWith rawMsg ''{'' \<or> startsWith rawMsg ''[''
      then (case parseJson rawMsg of
              None \<Rightarrow> JStr rawMsg
            | Some parsed \<Rightarrow>
                (let a = get_prop (get_prop (Some parsed) ''error'') ''message'';
                     b = get_prop (Some parsed) ''message''
                 in if truthy a then the a
                    else if truthy b then the b
                    else JStr rawMsg))
      else JStr rawMsg)"

text \<open>
  Line 126: \<open>rawMsg.match(/retry in ([0-9.]+)s/i)\<close>. \<open>retryMatchAt\<close> is the attempt at
  one start position: the nine characters \<open>retry in \<close> in either case, then the longest
  non-empty run of digits and dots (a shorter run would be followed by a digit or a dot,
  never by \<open>s\<close>), then \<open>s\<close> or \<open>S\<close>. \<open>retryMatch\<close> returns the capture of the leftmost
  position that matches.
\<close>

definition isDigit :: "char \<Rightarrow> bool" where
  "isDigit c = (c \<in> set ''0123456789'')"

definition isNumChar :: "char \<Rightarrow> bool" where
  "isNumChar c = (isDigit c \<or> c = CHR ''.'')"

definition retryMatchAt :: "string \<Rightarrow> string option" where
  "retryMatchAt s =
     (if toLowerCase (take 9 s) = ''retry in ''
      then (let num = takeWhile isNumChar (drop 9 s);
                rest = dropWhile isNumChar (drop 9 s)
            in (case rest of
                  [] \<Rightarrow> None
                | c # _ \<Rightarrow> if num \<noteq> [] \<and> toLowerChar c = CHR ''s'' then Some num else None))
      else None)"

fun retryMatch :: "string \<Rightarrow> string option" where
  "retryMatch [] = None"
| "retryMatch (c # cs) =
     (case retryMatchAt (c # cs) of
        Some num \<Rightarrow> Some num
      | None \<Rightarrow> retryMatch cs)"

text \<open>
  Numbers of the runtime are IEEE doubles. \<open>js_float\<close> is the result of \<open>parseFloat\<close> on
  a capture: a finite double with its exact value, \<open>Infinity\<close> or \<open>NaN\<close>.
  \<open>js_number\<close> is a number as \<open>Math.ceil\<close> returns it and as the countdown holds it: a
  double whose value is an integer, \<open>Infinity\<close> or \<open>NaN\<close>.
\<close>

datatype js_float = Float real | FloatInfinity | FloatNaN

datatype js_number = Num int | PosInfinity | NaN

text \<open>
  Rounding a positive rational \<open>N / D\<close> to the nearest double, ties to the even
  significand. \<open>binExp\<close> is the binary exponent \<open>e\<close> with
  \<open>2 powi e \<le> N / D < 2 powi (e + 1)\<close>, found from the bit lengths of \<open>N\<close> and \<open>D\<close>. A
  double has a significand of 53 bits, so the doubles around \<open>N / D\<close> are the multiples
  of \<open>2 powi (e - 52)\<close>, with \<open>e\<close> not below \<open>-1022\<close> (below that the doubles are
  subnormal, the multiples of \<open>2 powi (-1074)\<close>). When the nearest multiple is
  \<open>2 powi 1024\<close> or more, the result is \<open>Infinity\<close>.
\<close>

definition roundHalfEven :: "real \<Rightarrow> int" where
  "roundHalfEven q =
     (let n = \<lfloor>q\<rfloor>; d = q - of_int n
      in if d < 1 / 2 then n
         else if 1 / 2 < d then n + 1
         else if even n then n else n + 1)"

definition binExp :: "int \<Rightarrow> int \<Rightarrow> int" where
  "binExp N D =
     (let b = bitlen N - bitlen D
      in if 2 powi b \<le> (of_int N / of_int D :: real) then b else b - 1)"

definition toDouble :: "int \<Rightarrow> int \<Rightarrow> js_float" where
  "toDouble N D =
     (if N = 0 then Float 0
      else (let e = max (binExp N D) (- 1022);
                n = roundHalfEven (of_int N / of_int D / 2 powi (e - 52))
            in if 1024 \<le> e \<or> (e = 1023 \<and> 2 ^ 53 \<le> n) then FloatInfinity
               else Float (of_int n * 2 powi (e - 52))))"

text \<open>
  \<open>parseFloat\<close> on a capture, which holds digits and dots only: the longest prefix that is
  a decimal literal (digits \<open>ip\<close>, then optionally a dot and digits \<open>fp\<close>; or a dot and
  digits), and \<open>NaN\<close> when there is none. The literal denotes the rational
  \<open>(ip * 10 ^ k + fp) / 10 ^ k\<close> with \<open>k\<close> the number of digits of \<open>fp\<close>; the result is
  the double nearest to it.
\<close>

definition digitVal :: "char \<Rightarrow> int" where
  "digitVal c = of_char c - 48"

definition digitsVal :: "string \<Rightarrow> int" where
  "digitsVal ds = foldl (\<lambda>acc c. 10 * acc + digitVal c) 0 ds"

definition parseFloat :: "string \<Rightarrow> js_float" where
  "parseFloat s =
     (let ip = takeWhile isDigit s;
          fp = (case dropWhile isDigit s of
                  [] \<Rightarrow> []
                | c # r \<Rightarrow> if c = CHR ''.'' then takeWhile isDigit r else [])
      in if ip = [] \<and> fp = [] then FloatNaN
         else toDouble (digitsVal ip * 10 ^ length fp + digitsVal fp) (10 ^ length fp))"

text \<open>\<open>Math.ceil\<close> on the result of \<open>parseFloat\<close>, and the comparisons \<open>x > 0\<close> and
  \<open>x <= 0\<close> of a number, both false for \<open>NaN\<close>.\<close>

fun mathCeil :: "js_float \<Rightarrow> js_number" where
  "mathCeil (Float x) = Num \<lceil>x\<rceil>"
| "mathCeil FloatInfinity = PosInfinity"
| "mathCeil FloatNaN = NaN"

fun isPositive :: "js_number \<Rightarrow> bool" where
  "isPositive (Num n) = (0 < n)"
| "isPositive PosInfinity = True"
| "isPositive NaN = False"


text \<open>Lines 115 and 126-129: \<open>retrySeconds\<close>.\<close>

definition retrySecondsOf :: "string \<Rightarrow> js_number" where
  "retrySecondsOf rawMsg =
     (case retryMatch rawMsg of
        None \<Rightarrow> Num 0
      | Some num \<Rightarrow> mathCeil (parseFloat num))"

text \<open>
  Lines 131-149. The source keeps no name for the branch it takes; \<open>kind\<close> records it.
  \<open>armCountdown\<close> is the argument of \<open>setRetryCountdown\<close> when line 138 runs.
\<close>

datatype error_kind = RateLimited | ServiceUnavailable | AuthError | NetworkError | Unknown

record classified =
  kind :: error_kind
  userMessage :: string
  retrySeconds :: js_number
  armCountdown :: "js_number option"

definition classifyMsg :: "string \<Rightarrow> classified" where
  "classifyMsg rawMsg =
     (let retrySeconds = retrySecondsOf rawMsg;
          lowerMsg = toLowerCase rawMsg
      in if includes_str lowerMsg ''quota'' \<or> includes_str lowerMsg ''429''
            \<or> includes_str lowerMsg ''rate limit'' \<or> includes_str lowerMsg ''exceeded''
         then \<lparr>kind = RateLimited,
               userMessage = ''Too many requests. Please wait a moment and try again.'',
               retrySeconds = retrySeconds,
               armCountdown = (if isPositive retrySeconds then Some retrySeconds else None)\<rparr>
         else if includes_str rawMsg ''503'' \<or> includes_str lowerMsg ''unavailable''
                 \<or> includes_str lowerMsg ''high demand''
         then \<lparr>kind = ServiceUnavailable,
               userMessage = ''The AI service is currently experiencing high demand. Please try again in a moment.'',
               retrySeconds = retrySeconds, armCountdown = None\<rparr>
         else if includes_str rawMsg ''API Key'' \<or> includes_str rawMsg ''api_key''
                 \<or> includes_str rawMsg ''401''
         then \<lparr>kind = AuthError,
               userMessage = ''Authentication error. Please check the API configuration.'',
               retrySeconds = retrySeconds, armCountdown = None\<rparr>
         else if includes_str lowerMsg ''network'' \<or> includes_str lowerMsg ''fetch''
                 \<or> includes_str lowerMsg ''failed to fetch''
         then \<lparr>kind = NetworkError,
               userMessage = ''Network error. Please check your connection and try again.'',
               retrySeconds = retrySeconds, armCountdown = None\<rparr>
         else \<lparr>kind = Unknown, userMessage = take 500 rawMsg,
               retrySeconds = retrySeconds, armCountdown = None\<rparr>)"

text \<open>
  The whole catch block up to line 149. When the unwrapped message is not a string,
  \<open>rawMsg.match\<close> is not a function and the block throws a \<open>TypeError\<close>.
\<close>

definition classify :: "(string \<Rightarrow> json option) \<Rightarrow> js_error \<Rightarrow> js_error + classified" where
  "classify parseJson err =
     (case unwrapMsg parseJson (err_message err) of
        JStr rawMsg \<Rightarrow> Inr (classifyMsg rawMsg)
      | _ \<Rightarrow> Inl (Error ''TypeError: rawMsg.match is not a function''))"

section \<open>Content extraction (services/fileParser.ts)\<close>

text \<open>The union \<open>FileContent\<close> of types.ts. The \<open>data\<close> of an image is \<open>parts[1]\<close> of
  a split, which is \<open>undefined\<close> (here \<open>None\<close>) when the split has one piece.\<close>

datatype FileContent =
    TextContent string
  | ImageContent string "string option"

text \<open>
  A \<open>File\<close>: its name, its declared MIME type, and what a \<open>FileReader\<close> delivers for it
  (\<open>Inl\<close> when \<open>onerror\<close> fires; an empty \<open>dataURL\<close> stands for a null result).
\<close>

record js_file =
  file_name :: string
  file_type :: string
  dataURL :: "js_error + string"
  textData :: "js_error + string"

text \<open>
  The libraries the page may have loaded. \<open>pdfjsLib\<close> opens the bytes of a file as a
  document with \<open>numPages\<close> pages, whose page \<open>i\<close> (from 1) yields the \<open>str\<close> of its
  text items; \<open>mammoth\<close> yields the raw text of a file.
\<close>

record pdf_doc =
  numPages :: nat
  getPage :: "nat \<Rightarrow> js_error + string list"

record host =
  pdfjsLib :: "(js_file \<Rightarrow> js_error + pdf_doc) option"
  mammoth :: "(js_file \<Rightarrow> js_error + string) option"

text \<open>Line 56: \<open>parts[0].match(/:(.*?);/)\<close>. After a colon the lazy group stops at the
  first semicolon; the dot matches no line terminator, so a line break before the
  semicolon makes the attempt at that colon fail, and the next colon is tried.\<close>

definition isLineTerminator :: "char \<Rightarrow> bool" where
  "isLineTerminator c = (c = CHR 0x0A \<or> c = CHR 0x0D)"

fun lazyUntilSemi :: "string \<Rightarrow> string option" where
  "lazyUntilSemi [] = None"
| "lazyUntilSemi (c # cs) =
     (if c = CHR '';'' then Some []
      else if isLineTerminator c then None
      else map_option ((#) c) (lazyUntilSemi cs))"

fun mimeMatch :: "string \<Rightarrow> string option" where
  "mimeMatch [] = None"
| "mimeMatch (c # cs) =
     (if c = CHR '':''
      then (case lazyUntilSemi cs of
              Some m \<Rightarrow> Some m
            | None \<Rightarrow> mimeMatch cs)
      else mimeMatch cs)"

text \<open>Lines 39-71. A split is never empty, so the first case of the distinction on
  \<open>parts\<close> is never taken; \<open>p0\<close> is \<open>parts[0]\<close> and the head of \<open>ps\<close>, if any, is
  \<open>parts[1]\<close>.\<close>

definition readImageFile :: "js_file \<Rightarrow> js_error + FileContent" where
  "readImageFile f =
     (case dataURL f of
        Inl e \<Rightarrow> Inl e
      | Inr result \<Rightarrow>
          if result = [] then Inl (Error ''Failed to read image file'')
          else (case split_chr CHR '','' result of
                  [] \<Rightarrow> Inl (Error ''Failed to read image file'')
                | p0 # ps \<Rightarrow>
                    (let base64Data = (case ps of [] \<Rightarrow> None | d # _ \<Rightarrow> Some d);
                         finalMimeType =
                           (if file_type f = [] \<and> p0 \<noteq> []
                            then (case mimeMatch p0 of
                                    Some m \<Rightarrow> m
                                  | None \<Rightarrow> file_type f)
                            else file_type f)
                     in Inr (ImageContent
                               (if finalMimeType = [] then ''image/jpeg'' else finalMimeType)
                               base64Data))))"

definition readTextFile :: "js_file \<Rightarrow> js_error + string" where
  "readTextFile f = textData f"

text \<open>Lines 89-98: the loop over the pages, \<open>i\<close> from 1 while \<open>i \<le> numPages\<close>, with
  \<open>fullText\<close> as accumulator.\<close>

function readPages :: "pdf_doc \<Rightarrow> nat \<Rightarrow> string \<Rightarrow> js_error + string" where
  "readPages pdf i fullText =
     (if i \<le> numPages pdf
      then (case getPage pdf i of
              Inl e \<Rightarrow> Inl e
            | Inr items \<Rightarrow>
                readPages pdf (Suc i) (fullText @ join_str '' '' items @ [CHR 0x0A]))
      else Inr fullText)"
  by pat_completeness auto
termination
  by (relation "measure (\<lambda>(pdf, i, fullText). Suc (numPages pdf) - i)") auto

declare readPages.simps [simp del]

definition readPdfFile :: "host \<Rightarrow> js_file \<Rightarrow> js_error + string" where
  "readPdfFile h f =
     (case pdfjsLib h of
        None \<Rightarrow> Inl (Error ''PDF library not loaded'')
      | Some getDocument \<Rightarrow>
          (case getDocument f of
             Inl e \<Rightarrow> Inl e
           | Inr pdf \<Rightarrow> readPages pdf 1 []))"

definition readDocxFile :: "host \<Rightarrow> js_file \<Rightarrow> js_error + string" where
  "readDocxFile h f =
     (case mammoth h of
        None \<Rightarrow> Inl (Error ''DOCX library not loaded'')
      | Some extractRawText \<Rightarrow> extractRawText f)"

text \<open>Line 12: \<open>file.name.split('.').pop()?.toLowerCase()\<close>; the split is never empty, so
  \<open>pop\<close> always yields a string.\<close>

definition extensionOf :: "string \<Rightarrow> string" where
  "extensionOf name = toLowerCase (last (split_chr CHR ''.'' name))"

definition imageExtensions :: "string list" where
  "imageExtensions = [''jpg'', ''jpeg'', ''png'', ''webp'', ''heic'', ''heif'']"

definition asText :: "js_error + string \<Rightarrow> js_error + FileContent" where
  "asText r = (case r of Inl e \<Rightarrow> Inl e | Inr t \<Rightarrow> Inr (TextContent t))"

definition extractContentFromFile :: "host \<Rightarrow> js_file \<Rightarrow> js_error + FileContent" where
  "extractContentFromFile h f =
     (let extension = extensionOf (file_name f);
          mimeType = file_type f
      in if extension \<in> set imageExtensions \<or> startsWith mimeType ''image/''
         then readImageFile f
         else if extension = ''txt'' then asText (readTextFile f)
         else if extension = ''pdf'' then asText (readPdfFile h f)
         else if extension = ''docx'' then asText (readDocxFile h f)
         else Inl (Error (''Unsupported file type: .'' @ extension)))"

section \<open>The analysis service (analyzeResume and generateWithFallback)\<close>

text \<open>The interfaces of types.ts. \<open>JSON.parse(jsonText) as ResumeAnalysisResult\<close> is an
  unchecked cast; the model covers the responses that honour the schema the request
  enforces.\<close>

record SectionAnalysis =
  sectionName :: string
  strengths :: "string list"
  weaknesses :: "string list"
  improvementSuggestions :: "string list"

record KeywordAnalysis =
  found :: "string list"
  missing :: "string list"

record JobMatch =
  role :: string
  matchPercentage :: real
  reason :: string

record AtsCompatibility =
  score :: real
  issues :: "string list"

record ContentQuality =
  actionVerbsUsage :: string
  quantifiedAchievements :: string
  clarity :: string
  professionalTone :: string

record SpecificImprovement =
  improvementSection :: string
  problem :: string
  suggestedRewrite :: string

datatype Strength = Strong | Average | Weak

record FinalVerdict =
  impression :: string
  strength :: Strength
  priorityImprovements :: "string list"

record ResumeAnalysisResult =
  overallScore :: real
  overallJustification :: string
  sectionAnalysis :: "SectionAnalysis list"
  atsCompatibility :: AtsCompatibility
  keywordAnalysis :: KeywordAnalysis
  jobMatches :: "JobMatch list"
  contentQuality :: ContentQuality
  dos :: "string list"
  donts :: "string list"
  specificImprovements :: "SpecificImprovement list"
  finalVerdict :: FinalVerdict

text \<open>The \<open>contents\<close> of a request: one string for a text, two parts for an image.\<close>

datatype contents =
    TextContents string
  | PartsContents string string "string option"

record response =
  responseText :: "string option"

text \<open>
  What analyzeResume reaches outside itself: the environment variable with the key, the
  remote call \<open>ai.models.generateContent\<close> for a model identifier and the contents (the
  configuration is the same constant in every call), and \<open>JSON.parse\<close> on the text of
  a response.
\<close>

record gemini =
  apiKey :: "string option"
  generateContent :: "string \<Rightarrow> contents \<Rightarrow> js_error + response"
  parseResult :: "string \<Rightarrow> js_error + ResumeAnalysisResult"

definition MODELS_TO_TRY :: "string list" where
  "MODELS_TO_TRY =
     [''gemini-2.5-flash'', ''gemini-2.0-flash'', ''gemini-2.0-flash-001'', ''gemini-2.5-pro'']"

text \<open>
  Lines 189-209. The loop over the model identifiers, with \<open>lastError\<close>; the first
  component of the result lists the identifiers attempted, in the order of the calls
  (the lines the source logs with \<open>Attempting analysis with model\<close>).
\<close>

fun fallbackLoop ::
  "(string \<Rightarrow> js_error + response) \<Rightarrow> string list \<Rightarrow> js_error option
     \<Rightarrow> string list \<times> (js_error + response)" where
  "fallbackLoop call [] lastError =
     ([], Inl (case lastError of
                 Some e \<Rightarrow> e
               | None \<Rightarrow> Error ''All models failed to generate content.''))"
| "fallbackLoop call (modelName # rest) lastError =
     (case call modelName of
        Inr resp \<Rightarrow> ([modelName], Inr resp)
      | Inl e \<Rightarrow>
          (case fallbackLoop call rest (Some e) of
             (tried, out) \<Rightarrow> (modelName # tried, out)))"

definition generateWithFallback ::
  "gemini \<Rightarrow> contents \<Rightarrow> string list \<times> (js_error + response)" where
  "generateWithFallback ai cs =
     fallbackLoop (\<lambda>modelName. generateContent ai modelName cs) MODELS_TO_TRY None"

definition promptText :: string where
  "promptText =
     ''\<newline>    Analyze the following resume. \<newline>'' @
     ''    Validation Check: Is this a resume? If no, return overallScore: 0 and overallJustification: '' @
     [CHR 0x22] @ ''INVALID_RESUME'' @ [CHR 0x22] @ ''.\<newline>'' @
     ''    If yes:\<newline>'' @
     ''    1. Identify the candidate's primary job role based on their experience.\<newline>'' @
     ''    2. Suggest 2 other related roles they might fit.\<newline>'' @
     ''    3. Evaluate keywords found and missing for their primary role.\<newline>'' @
     ''    4. Provide specific actionable feedback.\<newline>  ''"

definition buildContents :: "FileContent \<Rightarrow> contents" where
  "buildContents input =
     (case input of
        TextContent c \<Rightarrow>
          TextContents (promptText @ ''\<newline>\<newline>RESUME CONTENT:\<newline>'' @ c)
      | ImageContent mimeType d \<Rightarrow> PartsContents promptText mimeType d)"

text \<open>Lines 211-259; the trace of attempted models is passed through.\<close>

definition analyzeResume ::
  "gemini \<Rightarrow> FileContent \<Rightarrow> string list \<times> (js_error + ResumeAnalysisResult)" where
  "analyzeResume ai input =
     (if apiKey ai = None \<or> apiKey ai = Some []
      then ([], Inl (Error ''API Key is missing. Please set VITE_GEMINI_API_KEY.''))
      else (case generateWithFallback ai (buildContents input) of
              (tried, Inl e) \<Rightarrow> (tried, Inl e)
            | (tried, Inr resp) \<Rightarrow>
                (case responseText resp of
                   None \<Rightarrow> (tried, Inl (Error ''Empty response from Gemini.''))
                 | Some jsonText \<Rightarrow>
                     if jsonText = [] then (tried, Inl (Error ''Empty response from Gemini.''))
                     else (tried, parseResult ai jsonText))))"

section \<open>The pipeline (startAnalysis of the App component)\<close>

datatype AnalysisStatus = idle | parsing | validating | analyzing | success | error

record app_state =
  status :: AnalysisStatus
  result :: "ResumeAnalysisResult option"
  errorMsg :: "string option"
  showErrorModal :: bool
  retryCountdown :: "js_number option"

text \<open>
  Lines 94-105, the body of the \<open>try\<close> after the first two state updates. Besides the
  outcome (\<open>Inl\<close> is the value thrown), the record keeps the arguments \<open>analyzeResume\<close>
  was invoked with and the model identifiers the remote capability was called for.
\<close>

record run =
  analyzeCalls :: "FileContent list"
  remoteCalls :: "string list"
  outcome :: "js_error + ResumeAnalysisResult"

definition tooShortError :: js_error where
  "tooShortError =
     Error ''Document is too short to be a valid resume. Please upload a complete resume or CV.''"

definition invalidDocumentError :: js_error where
  "invalidDocumentError =
     Error (''The uploaded document does not appear to be a valid resume or CV. '' @
            ''Please upload a professional resume containing sections like Education, Skills, Experience, or Projects.'')"

definition isSentinel :: "ResumeAnalysisResult \<Rightarrow> bool" where
  "isSentinel analysis =
     (overallScore analysis = 0 \<and> startsWith (overallJustification analysis) ''INVALID_RESUME'')"

definition afterExtraction :: "gemini \<Rightarrow> FileContent \<Rightarrow> run" where
  "afterExtraction ai content =
     (if (case content of TextContent c \<Rightarrow> length c < 200 | ImageContent _ _ \<Rightarrow> False)
      then \<lparr>analyzeCalls = [], remoteCalls = [], outcome = Inl tooShortError\<rparr>
      else (case analyzeResume ai content of
              (tried, Inl e) \<Rightarrow>
                \<lparr>analyzeCalls = [content], remoteCalls = tried, outcome = Inl e\<rparr>
            | (tried, Inr analysis) \<Rightarrow>
                if isSentinel analysis
                then \<lparr>analyzeCalls = [content], remoteCalls = tried,
                      outcome = Inl invalidDocumentError\<rparr>
                else \<lparr>analyzeCalls = [content], remoteCalls = tried,
                      outcome = Inr analysis\<rparr>))"

definition tryBlock :: "host \<Rightarrow> gemini \<Rightarrow> js_file \<Rightarrow> run" where
  "tryBlock h ai f =
     (case extractContentFromFile h f of
        Inl e \<Rightarrow> \<lparr>analyzeCalls = [], remoteCalls = [], outcome = Inl e\<rparr>
      | Inr content \<Rightarrow> afterExtraction ai content)"

text \<open>
  Lines 83-156. Without a selected file only the message and the modal are set. Otherwise
  the state after the \<open>try\<close> and, for a thrown value, after the \<open>catch\<close>; when the
  \<open>catch\<close> itself throws, the state updates made so far stay.
\<close>

definition startAnalysis ::
  "(string \<Rightarrow> json option) \<Rightarrow> host \<Rightarrow> gemini \<Rightarrow> js_file option \<Rightarrow> app_state \<Rightarrow> app_state" where
  "startAnalysis parseJson h ai selectedFile s =
     (case selectedFile of
        None \<Rightarrow> s\<lparr>errorMsg := Some ''Please select a file to analyze.'', showErrorModal := True\<rparr>
      | Some f \<Rightarrow>
          (let r = tryBlock h ai f;
               s1 = s\<lparr>status := (if analyzeCalls r = [] then parsing else analyzing),
                       errorMsg := None\<rparr>
           in (case outcome r of
                 Inr analysis \<Rightarrow> s1\<lparr>result := Some analysis, status := success\<rparr>
               | Inl err \<Rightarrow>
                   (case classify parseJson err of
                      Inl _ \<Rightarrow> s1
                    | Inr c \<Rightarrow>
                        s1\<lparr>retryCountdown :=
                              (case armCountdown c of
                                 Some n \<Rightarrow> Some n
                               | None \<Rightarrow> retryCountdown s1),
                            errorMsg := Some (userMessage c),
                            showErrorModal := True,
                            status := error\<rparr>))))"

section \<open>The retry countdown (the effect on retryCountdown)\<close>





section \<open>Sample inputs\<close>

text \<open>Concrete files, hosts, remote capabilities and results, on which the statements
  below are evaluated.\<close>

definition sample_result :: ResumeAnalysisResult where
  "sample_result =
     \<lparr>overallScore = 7.5,
      overallJustification = ''Clear structure, few metrics.'',
      sectionAnalysis =
        [\<lparr>sectionName = ''Experience'', strengths = [''Relevant roles''],
          weaknesses = [''No numbers''], improvementSuggestions = [''Quantify results'']\<rparr>],
      atsCompatibility = \<lparr>score = 8, issues = []\<rparr>,
      keywordAnalysis = \<lparr>found = [''TypeScript''], missing = [''Testing'']\<rparr>,
      jobMatches = [\<lparr>role = ''Frontend Developer'', matchPercentage = 80, reason = ''Skills''\<rparr>],
      contentQuality =
        \<lparr>actionVerbsUsage = ''Good'', quantifiedAchievements = ''Weak'',
         clarity = ''Good'', professionalTone = ''Good''\<rparr>,
      dos = [''Add metrics''],
      donts = [''Use long paragraphs''],
      specificImprovements =
        [\<lparr>improvementSection = ''Summary'', problem = ''Vague'',
          suggestedRewrite = ''Frontend developer with 3 years of experience''\<rparr>],
      finalVerdict =
        \<lparr>impression = ''Solid'', strength = Average, priorityImprovements = [''Metrics'']\<rparr>\<rparr>"

definition sentinel_result :: ResumeAnalysisResult where
  "sentinel_result =
     sample_result\<lparr>overallScore := 0, overallJustification := ''INVALID_RESUME''\<rparr>"

text \<open>A capability whose every model fails, each with its own message.\<close>

definition failing_gemini :: gemini where
  "failing_gemini =
     \<lparr>apiKey = Some ''key'',
      generateContent = (\<lambda>modelName cs. Inl (Error (''failed: '' @ modelName))),
      parseResult = (\<lambda>t. Inl (Error ''SyntaxError''))\<rparr>"

text \<open>A capability whose first model fails and whose second answers with a valid result.\<close>

definition second_gemini :: gemini where
  "second_gemini =
     \<lparr>apiKey = Some ''key'',
      generateContent =
        (\<lambda>modelName cs.
           if modelName = ''gemini-2.5-flash'' then Inl (Error ''429 quota'')
           else Inr \<lparr>responseText = Some ''{ok}''\<rparr>),
      parseResult =
        (\<lambda>t. if t = ''{ok}'' then Inr sample_result else Inl (Error ''SyntaxError''))\<rparr>"

text \<open>A capability whose first model answers with text that does not parse, while every
  other model answers with a valid result.\<close>

definition garbled_gemini :: gemini where
  "garbled_gemini =
     \<lparr>apiKey = Some ''key'',
      generateContent =
        (\<lambda>modelName cs.
           if modelName = ''gemini-2.5-flash'' then Inr \<lparr>responseText = Some ''{oops''\<rparr>
           else Inr \<lparr>responseText = Some ''{ok}''\<rparr>),
      parseResult =
        (\<lambda>t. if t = ''{ok}'' then Inr sample_result else Inl (Error ''SyntaxError''))\<rparr>"

text \<open>A capability that answers with the sentinel.\<close>

definition sentinel_gemini :: gemini where
  "sentinel_gemini =
     \<lparr>apiKey = Some ''key'',
      generateContent = (\<lambda>modelName cs. Inr \<lparr>responseText = Some ''{invalid}''\<rparr>),
      parseResult = (\<lambda>t. Inr sentinel_result)\<rparr>"

text \<open>A host with a document library that reads every file as three pages with the
  texts A, B and C, and without the DOCX library.\<close>

definition three_pages :: pdf_doc where
  "three_pages =
     \<lparr>numPages = 3,
      getPage = (\<lambda>i. Inr (if i = 1 then [''A''] else if i = 2 then [''B''] else [''C'']))\<rparr>"

definition sample_host :: host where
  "sample_host = \<lparr>pdfjsLib = Some (\<lambda>f. Inr three_pages), mammoth = None\<rparr>"

definition short_txt :: js_file where
  "short_txt =
     \<lparr>file_name = ''notes.txt'', file_type = ''text/plain'',
      dataURL = Inr ''data:text/plain;base64,aGVsbG8='', textData = Inr ''hello''\<rparr>"

definition png_untyped :: js_file where
  "png_untyped =
     \<lparr>file_name = ''scan.png'', file_type = [],
      dataURL = Inr ''data:image/png;base64,iVBORw0KGgo='', textData = Inr ''?PNG''\<rparr>"

definition jpg_bare :: js_file where
  "jpg_bare =
     \<lparr>file_name = ''photo.jpg'', file_type = [],
      dataURL = Inr ''data,/9j/4AAQ'', textData = Inr ''JFIF''\<rparr>"

definition jpg_typed :: js_file where
  "jpg_typed =
     \<lparr>file_name = ''photo'', file_type = ''image/webp'',
      dataURL = Inr ''data:image/webp;base64,UklGRg=='', textData = Inr ''RIFF''\<rparr>"

definition pdf_upper :: js_file where
  "pdf_upper =
     \<lparr>file_name = ''RESUME.PDF'', file_type = ''application/pdf'',
      dataURL = Inr ''data:application/pdf;base64,JVBERi0='', textData = Inr ''%PDF-''\<rparr>"

definition named_txt :: js_file where
  "named_txt =
     \<lparr>file_name = ''txt'', file_type = [],
      dataURL = Inr ''data:application/octet-stream;base64,aGVsbG8='', textData = Inr ''hello''\<rparr>"

definition initial_state :: app_state where
  "initial_state =
     \<lparr>status = idle, result = None, errorMsg = None, showErrorModal = False,
      retryCountdown = None\<rparr>"

section \<open>Facts about strings\<close>

lemma startsWith_iff: "startsWith s p \<longleftrightarrow> (\<exists>r. s = p @ r)"
  unfolding startsWith_def
  by (metis append_eq_conv_conj append_take_drop_id)

lemma includes_str_iff: "includes_str s p \<longleftrightarrow> (\<exists>a b. s = a @ p @ b)"
proof (induction s)
  case Nil
  then show ?case by auto
next
  case (Cons c cs)
  show ?case
  proof
    assume "includes_str (c # cs) p"
    then consider "startsWith (c # cs) p" | "includes_str cs p" by auto
    then show "\<exists>a b. c # cs = a @ p @ b"
    proof cases
      case 1
      then obtain r where "c # cs = p @ r" by (auto simp: startsWith_iff)
      then have "c # cs = [] @ p @ r" by simp
      then show ?thesis by blast
    next
      case 2
      then obtain a b where "cs = a @ p @ b" using Cons.IH by blast
      then have "c # cs = (c # a) @ p @ b" by simp
      then show ?thesis by blast
    qed
  next
    assume "\<exists>a b. c # cs = a @ p @ b"
    then obtain a b where ab: "c # cs = a @ p @ b" by blast
    show "includes_str (c # cs) p"
    proof (cases a)
      case Nil
      with ab have "startsWith (c # cs) p" by (auto simp: startsWith_iff)
      then show ?thesis by simp
    next
      case (Cons x a')
      with ab have "cs = a' @ p @ b" by simp
      then have "includes_str cs p" using Cons.IH by blast
      then show ?thesis by simp
    qed
  qed
qed

lemma toLowerCase_append: "toLowerCase (a @ b) = toLowerCase a @ toLowerCase b"
  by (simp add: toLowerCase_def)

lemma toLowerCase_length: "toLowerCase a = b \<Longrightarrow> length a = length b"
  by (auto simp: toLowerCase_def)

lemma includes_lower:
  assumes "w = pre @ q @ post" and "toLowerCase q = p"
  shows "includes_str (toLowerCase w) p"
  using assms by (auto simp: includes_str_iff toLowerCase_append)

lemma list_all_upt: "list_all P [0..<n] \<longleftrightarrow> (\<forall>i<n. P i)"
  by (auto simp: list_all_iff)

section \<open>The error classifier\<close>

text \<open>
  C5. Whenever the working message (the raw message after the optional JSON unwrapping)
  contains, in any letter case, one of the markers \<open>quota\<close>, \<open>429\<close>, \<open>rate limit\<close>,
  \<open>exceeded\<close>, the classifier takes the rate-limit branch with the fixed
  too-many-requests message, also when the message contains \<open>503\<close>, \<open>unavailable\<close> or
  \<open>high demand\<close> as well: the first test is evaluated before the second, and the first
  match wins.
\<close>

theorem rate_limit_precedence:
  assumes "unwrapMsg parseJson (err_message err) = JStr w"
      and "w = pre @ q @ post"
      and "toLowerCase q \<in> {''quota'', ''429'', ''rate limit'', ''exceeded''}"
      and "w = pre' @ u @ post'"
      and "toLowerCase u \<in> {''503'', ''unavailable'', ''high demand''}"
  shows "\<exists>c. classify parseJson err = Inr c \<and> kind c = RateLimited
           \<and> userMessage c = ''Too many requests. Please wait a moment and try again.''
           \<and> kind c \<noteq> ServiceUnavailable"
proof -
  have "includes_str (toLowerCase w) (toLowerCase q)"
    using assms(2) by (rule includes_lower) simp
  then have "includes_str (toLowerCase w) ''quota'' \<or> includes_str (toLowerCase w) ''429''
      \<or> includes_str (toLowerCase w) ''rate limit'' \<or> includes_str (toLowerCase w) ''exceeded''"
    using assms(3) by auto
  then have "kind (classifyMsg w) = RateLimited \<and>
     userMessage (classifyMsg w) = ''Too many requests. Please wait a moment and try again.''"
    unfolding classifyMsg_def Let_def by simp
  then show ?thesis using assms(1) by (simp add: classify_def)
qed

theorem rate_limit_precedence_witness:
  "toLowerCase ''Quota'' = ''quota'' \<and> toLowerCase ''503'' = ''503'' \<and>
   (\<exists>c. classify (\<lambda>_. None) (Error ''Quota exceeded (503)'') = Inr c \<and> kind c = RateLimited
      \<and> userMessage c = ''Too many requests. Please wait a moment and try again.''
      \<and> kind c \<noteq> ServiceUnavailable)"
proof -
  have u: "unwrapMsg (\<lambda>_. None) (err_message (Error ''Quota exceeded (503)''))
             = JStr ''Quota exceeded (503)''"
    by (simp add: unwrapMsg_def startsWith_def)
  have d1: "''Quota exceeded (503)'' = [] @ ''Quota'' @ '' exceeded (503)''" by simp
  have d2: "''Quota exceeded (503)'' = ''Quota exceeded ('' @ ''503'' @ '')''" by simp
  have q: "toLowerCase ''Quota'' = ''quota''" by code_simp
  have t: "toLowerCase ''503'' = ''503''" by code_simp
  have q': "toLowerCase ''Quota'' \<in> {''quota'', ''429'', ''rate limit'', ''exceeded''}"
    by (simp only: q) simp
  have t': "toLowerCase ''503'' \<in> {''503'', ''unavailable'', ''high demand''}"
    by (simp only: t) simp
  from rate_limit_precedence[OF u d1 q' d2 t'] q t show ?thesis by simp
qed

subsection \<open>The retry delay\<close>

lemma numChar_not_s: "isNumChar c \<Longrightarrow> toLowerChar c \<noteq> CHR ''s''"
  by (auto simp: isNumChar_def isDigit_def toLowerChar_def)

lemma digit_not_dot: "isDigit c \<Longrightarrow> c \<noteq> CHR ''.''"
  by (auto simp: isDigit_def)

lemma retryMatchAt_here:
  assumes "toLowerCase kw = ''retry in ''" and "toLowerChar s = CHR ''s''"
      and "num \<noteq> []" and "\<forall>c\<in>set num. isNumChar c"
  shows "retryMatchAt (kw @ num @ s # post) = Some num"
proof -
  have len: "length kw = 9" using toLowerCase_length[OF assms(1)] by simp
  have ns: "\<not> isNumChar s" using assms(2) numChar_not_s by blast
  have tw: "takeWhile isNumChar (num @ s # post) = num"
    using assms(4) ns by (simp add: takeWhile_append2)
  have dw: "dropWhile isNumChar (num @ s # post) = s # post"
    using assms(4) ns by (simp add: dropWhile_append2)
  show ?thesis
    unfolding retryMatchAt_def using len assms(1,2,3) tw dw by simp
qed

lemma retryMatch_skip:
  assumes "\<forall>i<length pre. retryMatchAt (drop i (pre @ rest)) = None"
  shows "retryMatch (pre @ rest) = retryMatch rest"
  using assms
proof (induction pre)
  case Nil
  then show ?case by simp
next
  case (Cons c cs)
  have here: "retryMatchAt ((c # cs) @ rest) = None"
    using Cons.prems[rule_format, of 0] by simp
  have "\<forall>i<length cs. retryMatchAt (drop i (cs @ rest)) = None"
  proof (intro allI impI)
    fix i assume "i < length cs"
    then have "retryMatchAt (drop (Suc i) ((c # cs) @ rest)) = None"
      using Cons.prems[rule_format, of "Suc i"] by simp
    then show "retryMatchAt (drop i (cs @ rest)) = None" by simp
  qed
  then have "retryMatch (cs @ rest) = retryMatch rest" by (rule Cons.IH)
  then show ?case using here by simp
qed

lemma retryMatch_here:
  "retryMatchAt s = Some num \<Longrightarrow> retryMatch s = Some num"
  by (cases s) (auto simp: retryMatchAt_def toLowerCase_def)

subsection \<open>Rounding to a double\<close>

lemma roundHalfEven_near: "\<bar>of_int (roundHalfEven q) - q\<bar> \<le> 1 / 2"
proof -
  define n where "n = \<lfloor>q\<rfloor>"
  have fl: "of_int n \<le> q" "q < of_int n + 1" unfolding n_def by linarith+
  have "roundHalfEven q =
      (if q - of_int n < 1 / 2 then n
       else if 1 / 2 < q - of_int n then n + 1
       else if even n then n else n + 1)"
    by (simp add: roundHalfEven_def Let_def n_def)
  then show ?thesis using fl by (auto simp: abs_if)
qed

lemma roundHalfEven_of_int: "roundHalfEven (of_int z) = z"
  by (simp add: roundHalfEven_def)

lemma binExp_lower:
  assumes "0 < N" and "0 < D"
  shows "2 powi (binExp N D) \<le> (of_int N / of_int D :: real)"
proof (cases "2 powi (bitlen N - bitlen D) \<le> (of_int N / of_int D :: real)")
  case True
  then show ?thesis by (simp add: binExp_def)
next
  case False
  have bn: "1 \<le> bitlen N" using assms(1) by (simp add: bitlen_alt_def)
  have bd: "0 \<le> bitlen D" by (rule bitlen_nonneg)
  have n: "(2::real) powi (bitlen N - 1) \<le> of_int N"
  proof -
    have "2 ^ nat (bitlen N - 1) \<le> N" using bitlen_bounds[OF assms(1)] by simp
    then have "(of_int (2 ^ nat (bitlen N - 1)) :: real) \<le> of_int N" by (simp only: of_int_le_iff)
    then show ?thesis using bn by (simp add: power_int_def)
  qed
  have d: "of_int D \<le> (2::real) powi (bitlen D)"
  proof -
    have "D < 2 ^ nat (bitlen D)" using bitlen_bounds[OF assms(2)] by simp
    then have "(of_int D :: real) < of_int (2 ^ nat (bitlen D))" by (simp only: of_int_less_iff)
    then show ?thesis using bd by (simp add: power_int_def)
  qed
  have "bitlen N - bitlen D - 1 = (bitlen N - 1) - bitlen D" by simp
  then have "(2::real) powi (bitlen N - bitlen D - 1) = 2 powi (bitlen N - 1) / 2 powi (bitlen D)"
    by (simp only: power_int_diff[of "2::real", simplified])
  also have "\<dots> \<le> of_int N / 2 powi (bitlen D)"
    using n by (simp add: divide_right_mono)
  also have "\<dots> \<le> of_int N / of_int D"
    using d assms by (simp add: frac_le)
  finally show ?thesis using False by (simp add: binExp_def)
qed

lemma toDouble_ceiling:
  assumes N0: "0 \<le> N" and D0: "0 < D" and N15: "N < 10 ^ 15" and D15: "D \<le> 10 ^ 15"
  shows "\<exists>r. toDouble N D = Float r \<and> \<lceil>r\<rceil> = \<lceil>of_int N / of_int D :: real\<rceil>"
proof (cases "N = 0")
  case True
  then show ?thesis by (simp add: toDouble_def)
next
  case False
  then have Npos: "0 < N" using N0 by simp
  define x :: real where "x = of_int N / of_int D"
  define e where "e = max (binExp N D) (- 1022)"
  define u :: real where "u = 2 powi (e - 52)"
  define n where "n = roundHalfEven (x / u)"
  define r :: real where "r = of_int n * u"
  define m where "m = \<lceil>x\<rceil>"
  have Dr: "(0::real) < of_int D" using D0 by simp
  have xpos: "0 < x" unfolding x_def using Npos D0 by simp
  have upos: "0 < u" unfolding u_def by simp
  \<comment> \<open>the number is at least one spacing unit of its binade\<close>
  have small: "(2::real) powi (- 1022) \<le> x"
  proof -
    have "(2::real) powi (- 1022) \<le> 1 / 10 ^ 15" by (simp add: power_int_def field_simps)
    also have "\<dots> \<le> 1 / of_int D"
    proof -
      have "(of_int D :: real) \<le> of_int (10 ^ 15)" using D15 by (simp only: of_int_le_iff)
      then show ?thesis using Dr by (simp add: frac_le)
    qed
    also have "\<dots> \<le> x"
    proof -
      have "(1::real) \<le> of_int N" using Npos by simp
      then show ?thesis unfolding x_def using Dr by (simp add: divide_right_mono)
    qed
    finally show ?thesis .
  qed
  have elow: "2 powi e \<le> x"
    using binExp_lower[OF Npos D0] small unfolding e_def x_def max_def by simp
  have xlt: "x < 2 ^ 53"
  proof -
    have "x \<le> of_int N"
    proof -
      have "(1::real) \<le> of_int D" using D0 by simp
      then have "of_int N / of_int D \<le> (of_int N :: real) / 1"
        using Npos by (intro frac_le) simp_all
      then show ?thesis by (simp add: x_def)
    qed
    also have "(of_int N :: real) < of_int (10 ^ 15)" using N15 by (simp only: of_int_less_iff)
    also have "(of_int (10 ^ 15) :: real) < 2 ^ 53" by simp
    finally show ?thesis .
  qed
  have e52: "e \<le> 52"
  proof (rule ccontr)
    assume "\<not> e \<le> 52"
    then have "53 \<le> e" by simp
    then have "(2::real) powi 53 \<le> 2 powi e" by (intro power_int_increasing) simp_all
    then show False using elow xlt by simp
  qed
  have notinf: "\<not> (1024 \<le> e \<or> (e = 1023 \<and> 2 ^ 53 \<le> n))" using e52 by simp
  have td: "toDouble N D = Float r"
    unfolding toDouble_def using False notinf
    by (simp add: Let_def e_def[symmetric] x_def[symmetric] u_def[symmetric] n_def[symmetric]
          r_def[symmetric])
  have near: "\<bar>r - x\<bar> \<le> u / 2"
  proof -
    have "\<bar>of_int n - x / u\<bar> \<le> 1 / 2" unfolding n_def by (rule roundHalfEven_near)
    then have "\<bar>of_int n - x / u\<bar> * u \<le> 1 / 2 * u"
      using upos by (intro mult_right_mono) simp_all
    moreover have "\<bar>of_int n - x / u\<bar> * u = \<bar>r - x\<bar>"
    proof -
      have "\<bar>of_int n - x / u\<bar> * u = \<bar>(of_int n - x / u) * u\<bar>"
        using upos by (simp add: abs_mult)
      also have "(of_int n - x / u) * u = r - x"
        using upos by (simp add: r_def field_simps)
      finally show ?thesis .
    qed
    ultimately show ?thesis by simp
  qed
  have uhalf: "u / 2 \<le> x / 2 ^ 53"
  proof -
    have "u = 2 powi e / 2 ^ 52" unfolding u_def by (simp add: power_int_diff)
    then have "u / 2 = 2 powi e / 2 ^ 53" by simp
    also have "\<dots> \<le> x / 2 ^ 53" using elow by (simp add: divide_right_mono)
    finally show ?thesis .
  qed
  have gap: "x / 2 ^ 53 < 1 / of_int D"
  proof -
    have "(of_int N :: real) < 2 ^ 53"
    proof -
      have "(of_int N :: real) < of_int (10 ^ 15)" using N15 by (simp only: of_int_less_iff)
      also have "(of_int (10 ^ 15) :: real) < 2 ^ 53" by simp
      finally show ?thesis .
    qed
    then have "of_int N / 2 ^ 53 < (1::real)" by simp
    then have "of_int N / 2 ^ 53 / of_int D < 1 / (of_int D :: real)"
      using Dr by (rule divide_strict_right_mono)
    moreover have "x / 2 ^ 53 = of_int N / 2 ^ 53 / of_int D" by (simp add: x_def)
    ultimately show ?thesis by (simp only:)
  qed
  have err: "\<bar>r - x\<bar> < 1 / of_int D" using near uhalf gap by linarith
  \<comment> \<open>the integer just below and the integer at or above the number\<close>
  have mx: "of_int m - 1 < x" "x \<le> of_int m" unfolding m_def by linarith+
  have below: "1 / of_int D \<le> x - (of_int m - 1)"
  proof -
    have "(of_int m - 1) * of_int D < (of_int N :: real)"
      using mx(1) Dr by (simp add: x_def field_simps)
    then have "(of_int ((m - 1) * D) :: real) < of_int N" by simp
    then have "(m - 1) * D < N" by (simp only: of_int_less_iff)
    then have "(m - 1) * D + 1 \<le> N" by simp
    then have "(of_int ((m - 1) * D + 1) :: real) \<le> of_int N" by (simp only: of_int_le_iff)
    then have "(of_int m - 1) * of_int D + 1 \<le> (of_int N :: real)" by simp
    then show ?thesis using Dr by (simp add: x_def field_simps)
  qed
  have lower: "of_int m - 1 < r" using err below by linarith
  have upper: "r \<le> of_int m"
  proof (cases "x = of_int m")
    case True
    have "2 powi (52 - e) = (of_int (2 ^ nat (52 - e)) :: real)"
      using e52 by (simp add: power_int_def)
    moreover have "1 / u = 2 powi (52 - e)"
      unfolding u_def by (simp add: power_int_diff)
    ultimately have inv: "1 / u = (of_int (2 ^ nat (52 - e)) :: real)" by simp
    have "x / u = x * (1 / u)" by simp
    also have "\<dots> = of_int m * of_int (2 ^ nat (52 - e))" by (simp only: inv True)
    finally have "x / u = of_int (m * 2 ^ nat (52 - e))" by simp
    then have "n = m * 2 ^ nat (52 - e)" unfolding n_def by (simp only: roundHalfEven_of_int)
    then have "of_int n = x / u" using \<open>x / u = of_int (m * 2 ^ nat (52 - e))\<close> by simp
    then have "r = x" using upos by (simp add: r_def)
    then show ?thesis using True by simp
  next
    case False
    then have "x < of_int m" using mx(2) by simp
    then have "(of_int N :: real) < of_int m * of_int D"
      using Dr by (simp add: x_def field_simps)
    then have "(of_int N :: real) < of_int (m * D)" by simp
    then have "N < m * D" by (simp only: of_int_less_iff)
    then have "N + 1 \<le> m * D" by simp
    then have "(of_int (N + 1) :: real) \<le> of_int (m * D)" by (simp only: of_int_le_iff)
    then have "of_int N + 1 \<le> (of_int m * of_int D :: real)" by simp
    then have "1 / of_int D \<le> of_int m - x" using Dr by (simp add: x_def field_simps)
    then show ?thesis using err by linarith
  qed
  have "\<lceil>r\<rceil> = m" using lower upper by (simp add: ceiling_unique)
  then show ?thesis using td by (simp add: m_def x_def)
qed

lemma digitVal_range: "isDigit c \<Longrightarrow> 0 \<le> digitVal c \<and> digitVal c \<le> 9"
  by (auto simp: isDigit_def digitVal_def)

lemma digitsVal_snoc: "digitsVal (ds @ [c]) = 10 * digitsVal ds + digitVal c"
  by (simp add: digitsVal_def)

lemma digitsVal_bounds:
  "\<forall>c\<in>set ds. isDigit c \<Longrightarrow> 0 \<le> digitsVal ds \<and> digitsVal ds < 10 ^ length ds"
proof (induction ds rule: rev_induct)
  case Nil
  then show ?case by (simp add: digitsVal_def)
next
  case (snoc c ds)
  then have ih: "0 \<le> digitsVal ds" "digitsVal ds < 10 ^ length ds" by simp_all
  have d: "0 \<le> digitVal c" "digitVal c \<le> 9" using snoc.prems digitVal_range by simp_all
  have "digitsVal ds + 1 \<le> 10 ^ length ds" using ih(2) by simp
  then have "10 * (digitsVal ds + 1) \<le> 10 * 10 ^ length ds" by simp
  then show ?case using ih(1) d by (simp add: digitsVal_snoc)
qed

lemma parseFloat_literal:
  assumes "(num = ip \<and> fp = []) \<or> num = ip @ CHR ''.'' # fp"
      and "ip \<noteq> [] \<or> fp \<noteq> []" and "\<forall>c\<in>set (ip @ fp). isDigit c"
  shows "parseFloat num =
           toDouble (digitsVal ip * 10 ^ length fp + digitsVal fp) (10 ^ length fp)"
proof -
  have dip: "\<forall>c\<in>set ip. isDigit c" and dfp: "\<forall>c\<in>set fp. isDigit c"
    using assms(3) by auto
  have nd: "\<not> isDigit CHR ''.''" using digit_not_dot by blast
  from assms(1) show ?thesis
  proof
    assume a: "num = ip \<and> fp = []"
    have tw: "takeWhile isDigit ip = ip" and dw: "dropWhile isDigit ip = []"
      using dip by (auto simp: takeWhile_eq_all_conv)
    have "ip \<noteq> []" using a assms(2) by simp
    then show ?thesis using a by (simp add: parseFloat_def Let_def tw dw)
  next
    assume a: "num = ip @ CHR ''.'' # fp"
    have tw: "takeWhile isDigit num = ip"
      using a dip nd by (simp add: takeWhile_append2)
    have dw: "dropWhile isDigit num = CHR ''.'' # fp"
      using a dip nd by (simp add: dropWhile_append2)
    have tf: "takeWhile isDigit fp = fp"
      using dfp by (simp add: takeWhile_eq_all_conv)
    show ?thesis using assms(2) by (auto simp: parseFloat_def Let_def tw dw tf)
  qed
qed

lemma parseFloat_decimal:
  assumes "(num = ip \<and> fp = []) \<or> num = ip @ CHR ''.'' # fp"
      and "ip \<noteq> [] \<or> fp \<noteq> []" and "\<forall>c\<in>set (ip @ fp). isDigit c"
      and "length ip + length fp \<le> 15"
  shows "mathCeil (parseFloat num) =
           Num \<lceil>real_of_int (digitsVal ip) + real_of_int (digitsVal fp) / 10 ^ length fp\<rceil>"
proof -
  define k where "k = length fp"
  define N where "N = digitsVal ip * 10 ^ k + digitsVal fp"
  have bi: "0 \<le> digitsVal ip" "digitsVal ip < 10 ^ length ip"
    using digitsVal_bounds[of ip] assms(3) by simp_all
  have bf: "0 \<le> digitsVal fp" "digitsVal fp < 10 ^ k"
    using digitsVal_bounds[of fp] assms(3) unfolding k_def by simp_all
  have N0: "0 \<le> N" unfolding N_def using bi(1) bf(1) by simp
  have D0: "(0::int) < 10 ^ k" by simp
  have "N < (digitsVal ip + 1) * 10 ^ k" unfolding N_def using bf(2) by (simp add: algebra_simps)
  also have "\<dots> \<le> 10 ^ length ip * 10 ^ k"
    using bi(2) by (intro mult_right_mono) simp_all
  also have "\<dots> = 10 ^ (length ip + k)" by (simp add: power_add)
  also have "\<dots> \<le> (10::int) ^ 15"
    using assms(4) unfolding k_def by (intro power_increasing) simp_all
  finally have N15: "N < 10 ^ 15" .
  have D15: "(10::int) ^ k \<le> 10 ^ 15"
    using assms(4) unfolding k_def by (intro power_increasing) simp_all
  obtain r where r: "toDouble N (10 ^ k) = Float r"
      "\<lceil>r\<rceil> = \<lceil>of_int N / of_int (10 ^ k) :: real\<rceil>"
    using toDouble_ceiling[OF N0 D0 N15 D15] by blast
  have val: "(of_int N / of_int (10 ^ k) :: real)
               = real_of_int (digitsVal ip) + real_of_int (digitsVal fp) / 10 ^ k"
    unfolding N_def by (simp add: field_simps)
  have "parseFloat num = Float r"
    using parseFloat_literal[OF assms(1,2,3)] r(1) unfolding N_def k_def by simp
  then show ?thesis using r(2) val unfolding k_def by simp
qed

text \<open>
  C6, as the source has it. The pattern is searched in the working message (after the
  optional JSON unwrapping) and the leftmost match decides: when the message is
  \<open>pre @ kw @ num @ s # post\<close> with \<open>kw\<close> the words \<open>retry in \<close> in any letter case,
  \<open>num\<close> a decimal numeral (digits \<open>ip\<close>, optionally a dot and digits \<open>fp\<close>) of at most
  15 digits, \<open>s\<close> the letter s in either case, and no match of the pattern starts inside
  \<open>pre\<close>, then \<open>retrySeconds\<close> is the ceiling of the number \<open>ip.fp\<close>. With at most 15
  digits the rounding of \<open>parseFloat\<close> to a double does not move the number across an
  integer.
\<close>

theorem retry_delay_leftmost:
  assumes "unwrapMsg parseJson (err_message err) = JStr w"
      and "w = pre @ kw @ num @ s # post"
      and "toLowerCase kw = ''retry in ''" and "toLowerChar s = CHR ''s''"
      and "(num = ip \<and> fp = []) \<or> num = ip @ CHR ''.'' # fp"
      and "ip \<noteq> [] \<or> fp \<noteq> []" and "\<forall>c\<in>set (ip @ fp). isDigit c"
      and "length ip + length fp \<le> 15"
      and "\<forall>i<length pre. retryMatchAt (drop i w) = None"
  shows "\<exists>c. classify parseJson err = Inr c \<and>
           retrySeconds c =
             Num \<lceil>real_of_int (digitsVal ip) + real_of_int (digitsVal fp) / 10 ^ length fp\<rceil>"
proof -
  have nonempty: "num \<noteq> []" using assms(5,6) by auto
  have numchars: "\<forall>c\<in>set num. isNumChar c"
    using assms(5,7) by (auto simp: isNumChar_def)
  have "retryMatchAt (kw @ num @ s # post) = Some num"
    using assms(3,4) nonempty numchars by (rule retryMatchAt_here)
  then have "retryMatch (kw @ num @ s # post) = Some num" by (rule retryMatch_here)
  moreover have "retryMatch w = retryMatch (kw @ num @ s # post)"
    unfolding assms(2) using assms(9) unfolding assms(2) by (rule retryMatch_skip)
  ultimately have "retryMatch w = Some num" by simp
  then have "retrySecondsOf w =
      Num \<lceil>real_of_int (digitsVal ip) + real_of_int (digitsVal fp) / 10 ^ length fp\<rceil>"
    using parseFloat_decimal[OF assms(5,6,7,8)] by (simp add: retrySecondsOf_def)
  then have "retrySeconds (classifyMsg w) =
      Num \<lceil>real_of_int (digitsVal ip) + real_of_int (digitsVal fp) / 10 ^ length fp\<rceil>"
    unfolding classifyMsg_def Let_def by simp
  then show ?thesis using assms(1) by (simp add: classify_def)
qed

text \<open>The message \<open>Quota exceeded. Please retry in 18.6s.\<close> yields 19.\<close>

theorem retry_delay_leftmost_witness:
  "toLowerCase ''retry in '' = ''retry in '' \<and> toLowerChar CHR ''s'' = CHR ''s'' \<and>
   list_all isDigit (''18'' @ ''6'') \<and>
   list_all (\<lambda>i. retryMatchAt (drop i ''Quota exceeded. Please retry in 18.6s.'') = None)
     [0..<length ''Quota exceeded. Please ''] \<and>
   (\<exists>c. classify (\<lambda>_. None) (Error ''Quota exceeded. Please retry in 18.6s.'') = Inr c
         \<and> retrySeconds c = Num 19)"
proof -
  have u: "unwrapMsg (\<lambda>_. None) (err_message (Error ''Quota exceeded. Please retry in 18.6s.''))
             = JStr ''Quota exceeded. Please retry in 18.6s.''"
    by (simp add: unwrapMsg_def startsWith_def)
  have d: "''Quota exceeded. Please retry in 18.6s.''
             = ''Quota exceeded. Please '' @ ''retry in '' @ ''18.6'' @ CHR ''s'' # ''.''"
    by simp
  have k: "toLowerCase ''retry in '' = ''retry in ''" by code_simp
  have s: "toLowerChar CHR ''s'' = CHR ''s''" by code_simp
  have n: "(''18.6'' = ''18'' \<and> ''6'' = []) \<or> ''18.6'' = ''18'' @ CHR ''.'' # ''6''" by simp
  have e: "''18'' \<noteq> [] \<or> ''6'' \<noteq> []" by simp
  have g: "\<forall>c\<in>set (''18'' @ ''6''). isDigit c" by code_simp
  have f: "length ''18'' + length ''6'' \<le> 15" by simp
  have l: "\<forall>i<length ''Quota exceeded. Please ''.
             retryMatchAt (drop i ''Quota exceeded. Please retry in 18.6s.'') = None"
  proof -
    have "list_all (\<lambda>i. retryMatchAt (drop i ''Quota exceeded. Please retry in 18.6s.'') = None)
            [0..<23]"
      by code_simp
    then have "\<forall>i<23. retryMatchAt (drop i ''Quota exceeded. Please retry in 18.6s.'') = None"
      by (simp only: list_all_upt)
    moreover have "length ''Quota exceeded. Please '' = 23" by simp
    ultimately show ?thesis by (simp only:)
  qed
  have v: "\<lceil>real_of_int (digitsVal ''18'') + real_of_int (digitsVal ''6'') / 10 ^ length ''6''\<rceil>
             = 19"
    by code_simp
  from retry_delay_leftmost[OF u d k s n e g f l] v
  have "\<exists>c. classify (\<lambda>_. None) (Error ''Quota exceeded. Please retry in 18.6s.'') = Inr c
            \<and> retrySeconds c = Num 19"
    by simp
  moreover have "list_all isDigit (''18'' @ ''6'')"
    using g by (simp only: list_all_iff)
  moreover have "list_all
      (\<lambda>i. retryMatchAt (drop i ''Quota exceeded. Please retry in 18.6s.'') = None)
      [0..<length ''Quota exceeded. Please '']"
    using l by (simp only: list_all_upt)
  ultimately show ?thesis using k s by blast
qed

text \<open>
  C6 as stated fails. The first message below contains \<open>retry in 18.6s\<close>, but an earlier
  match of the pattern decides and \<open>retrySeconds\<close> is 5, not 19. In the second message the
  number is above 2, so its ceiling is 3, but \<open>parseFloat\<close> rounds it to the double 2 and
  \<open>retrySeconds\<close> is 2.
\<close>

theorem retry_delay_counterexample:
  "includes_str ''Quota exceeded, retry in 5s (project) or retry in 18.6s (user)''
     ''retry in 18.6s''
   \<and> classify (\<lambda>_. None)
        (Error ''Quota exceeded, retry in 5s (project) or retry in 18.6s (user)'')
       = Inr \<lparr>kind = RateLimited,
              userMessage = ''Too many requests. Please wait a moment and try again.'',
              retrySeconds = Num 5, armCountdown = Some (Num 5)\<rparr>
   \<and> classify (\<lambda>_. None) (Error ''Quota: retry in 2.0000000000000000001s'')
       = Inr \<lparr>kind = RateLimited,
              userMessage = ''Too many requests. Please wait a moment and try again.'',
              retrySeconds = Num 2, armCountdown = Some (Num 2)\<rparr>"
  by code_simp

section \<open>The fallback loop\<close>

lemma fallbackLoop_char:
  "fallbackLoop call ms le =
     (case dropWhile (\<lambda>m. isl (call m)) ms of
        [] \<Rightarrow> (ms, if ms = [] then Inl (case le of Some e \<Rightarrow> e
                                   | None \<Rightarrow> Error ''All models failed to generate content.'')
                   else call (last ms))
      | m # _ \<Rightarrow> (takeWhile (\<lambda>m. isl (call m)) ms @ [m], call m))"
proof (induction ms arbitrary: le)
  case Nil
  then show ?case by simp
next
  case (Cons m ms)
  show ?case
  proof (cases "call m")
    case (Inr resp)
    then show ?thesis by simp
  next
    case (Inl e)
    show ?thesis
    proof (cases "dropWhile (\<lambda>m. isl (call m)) ms")
      case Nil
      then have allfail: "\<forall>x\<in>set ms. isl (call x)" by (simp add: dropWhile_eq_Nil_conv)
      show ?thesis
      proof (cases ms)
        case Nil
        then show ?thesis using Inl by simp
      next
        case (Cons a as)
        then show ?thesis using Inl \<open>dropWhile (\<lambda>m. isl (call m)) ms = []\<close> Cons.IH[of "Some e"]
          by simp
      qed
    next
      case (Cons a as)
      then show ?thesis using Inl Cons.IH[of "Some e"] by simp
    qed
  qed
qed

text \<open>
  C4. generateWithFallback calls the configured model identifiers in the order of the
  list: the identifiers attempted are the leading ones whose call fails, followed by the
  first one whose call succeeds, where the loop stops and returns that response. When the
  calls of all four fail, all four were attempted and the value thrown is the error of
  the last one, \<open>gemini-2.5-pro\<close>.
\<close>

theorem fallback_in_order:
  "generateWithFallback ai cs =
     (case dropWhile (\<lambda>m. isl (generateContent ai m cs)) MODELS_TO_TRY of
        [] \<Rightarrow> (MODELS_TO_TRY, generateContent ai (last MODELS_TO_TRY) cs)
      | m # _ \<Rightarrow> (takeWhile (\<lambda>m. isl (generateContent ai m cs)) MODELS_TO_TRY @ [m],
                 generateContent ai m cs))
   \<and> ((\<forall>m\<in>set MODELS_TO_TRY. \<exists>e. generateContent ai m cs = Inl e) \<longrightarrow>
        generateWithFallback ai cs = (MODELS_TO_TRY, generateContent ai ''gemini-2.5-pro'' cs))"
proof -
  have ne: "MODELS_TO_TRY \<noteq> []" by (simp add: MODELS_TO_TRY_def)
  have lastm: "last MODELS_TO_TRY = ''gemini-2.5-pro''" by (simp add: MODELS_TO_TRY_def)
  have char: "generateWithFallback ai cs =
     (case dropWhile (\<lambda>m. isl (generateContent ai m cs)) MODELS_TO_TRY of
        [] \<Rightarrow> (MODELS_TO_TRY, generateContent ai (last MODELS_TO_TRY) cs)
      | m # _ \<Rightarrow> (takeWhile (\<lambda>m. isl (generateContent ai m cs)) MODELS_TO_TRY @ [m],
                 generateContent ai m cs))"
    unfolding generateWithFallback_def fallbackLoop_char using ne by simp
  have "generateWithFallback ai cs = (MODELS_TO_TRY, generateContent ai ''gemini-2.5-pro'' cs)"
    if "\<forall>m\<in>set MODELS_TO_TRY. \<exists>e. generateContent ai m cs = Inl e"
  proof -
    have "\<forall>m\<in>set MODELS_TO_TRY. isl (generateContent ai m cs)" using that by auto
    then have dw: "dropWhile (\<lambda>m. isl (generateContent ai m cs)) MODELS_TO_TRY = []"
      by (simp add: dropWhile_eq_Nil_conv)
    show ?thesis by (simp only: char dw list.case lastm)
  qed
  then show ?thesis using char by blast
qed

theorem fallback_in_order_witness:
  "generateWithFallback failing_gemini (TextContents ''cv'') =
     ([''gemini-2.5-flash'', ''gemini-2.0-flash'', ''gemini-2.0-flash-001'', ''gemini-2.5-pro''],
      Inl (Error ''failed: gemini-2.5-pro''))
   \<and> generateWithFallback second_gemini (TextContents ''cv'') =
     ([''gemini-2.5-flash'', ''gemini-2.0-flash''], Inr \<lparr>responseText = Some ''{ok}''\<rparr>)"
proof -
  have a: "\<forall>m\<in>set MODELS_TO_TRY. \<exists>e. generateContent failing_gemini m (TextContents ''cv'') = Inl e"
    by (simp add: failing_gemini_def)
  have m: "MODELS_TO_TRY = [''gemini-2.5-flash'', ''gemini-2.0-flash'', ''gemini-2.0-flash-001'', ''gemini-2.5-pro'']"
    by (simp add: MODELS_TO_TRY_def)
  have 1: "generateWithFallback failing_gemini (TextContents ''cv'') =
     ([''gemini-2.5-flash'', ''gemini-2.0-flash'', ''gemini-2.0-flash-001'', ''gemini-2.5-pro''],
      Inl (Error ''failed: gemini-2.5-pro''))"
    using fallback_in_order[of failing_gemini "TextContents ''cv''", THEN conjunct2, THEN mp, OF a]
    by (simp add: m failing_gemini_def)
  have 2: "generateWithFallback second_gemini (TextContents ''cv'') =
     ([''gemini-2.5-flash'', ''gemini-2.0-flash''], Inr \<lparr>responseText = Some ''{ok}''\<rparr>)"
    using fallback_in_order[of second_gemini "TextContents ''cv''", THEN conjunct1]
    by (simp add: m second_gemini_def)
  from 1 2 show ?thesis by simp
qed

section \<open>Parsing the response\<close>

lemma fallbackLoop_last:
  "fallbackLoop call ms le = (tried, Inr resp) \<Longrightarrow>
     tried \<noteq> [] \<and> call (last tried) = Inr resp \<and> (\<forall>m\<in>set (butlast tried). isl (call m))
     \<and> (\<exists>rest. ms = tried @ rest)"
proof (induction ms arbitrary: le tried)
  case Nil
  then show ?case by simp
next
  case (Cons m ms)
  show ?case
  proof (cases "call m")
    case (Inr r)
    then show ?thesis using Cons.prems by auto
  next
    case (Inl e)
    obtain tr out where rec: "fallbackLoop call ms (Some e) = (tr, out)"
      by (cases "fallbackLoop call ms (Some e)")
    with Inl Cons.prems have t: "tried = m # tr" and o: "out = Inr resp" by auto
    from Cons.IH[OF rec[unfolded o]] have ih: "tr \<noteq> []" "call (last tr) = Inr resp"
      "\<forall>m\<in>set (butlast tr). isl (call m)" "\<exists>rest. ms = tr @ rest" by auto
    show ?thesis using ih t Inl by auto
  qed
qed

text \<open>
  C3, as the source has it. The text of a response is parsed after the fallback loop has
  returned. When a call succeeds, the loop stops at that response (the identifiers
  attempted are a prefix of the list, all but the last failed, the last one gave the
  response); when the text of that response is missing or empty, analyzeResume throws
  \<open>Empty response from Gemini.\<close>, and when it does not parse, analyzeResume throws the
  error of the parser. In both cases no further model identifier is attempted.
\<close>

theorem parse_failure_aborts:
  assumes "apiKey ai = Some k" and "k \<noteq> []"
      and "generateWithFallback ai (buildContents input) = (tried, Inr resp)"
  shows "(responseText resp = None \<or> responseText resp = Some [] \<longrightarrow>
            analyzeResume ai input = (tried, Inl (Error ''Empty response from Gemini.'')))
       \<and> (\<forall>t e. responseText resp = Some t \<and> t \<noteq> [] \<and> parseResult ai t = Inl e \<longrightarrow>
            analyzeResume ai input = (tried, Inl e))
       \<and> tried \<noteq> [] \<and> generateContent ai (last tried) (buildContents input) = Inr resp
       \<and> (\<forall>m\<in>set (butlast tried). isl (generateContent ai m (buildContents input)))
       \<and> (\<exists>rest. MODELS_TO_TRY = tried @ rest)"
proof -
  have "fallbackLoop (\<lambda>m. generateContent ai m (buildContents input)) MODELS_TO_TRY None
          = (tried, Inr resp)"
    using assms(3) by (simp add: generateWithFallback_def)
  from fallbackLoop_last[OF this]
  have tr: "tried \<noteq> [] \<and> generateContent ai (last tried) (buildContents input) = Inr resp
       \<and> (\<forall>m\<in>set (butlast tried). isl (generateContent ai m (buildContents input)))
       \<and> (\<exists>rest. MODELS_TO_TRY = tried @ rest)" .
  have e: "responseText resp = None \<or> responseText resp = Some [] \<longrightarrow>
            analyzeResume ai input = (tried, Inl (Error ''Empty response from Gemini.''))"
    using assms by (auto simp: analyzeResume_def)
  have p: "\<forall>t e. responseText resp = Some t \<and> t \<noteq> [] \<and> parseResult ai t = Inl e \<longrightarrow>
            analyzeResume ai input = (tried, Inl e)"
    using assms by (auto simp: analyzeResume_def)
  from tr e p show ?thesis by blast
qed

theorem parse_failure_aborts_witness:
  "analyzeResume garbled_gemini (ImageContent ''image/png'' (Some ''iVBORw0KGgo=''))
     = ([''gemini-2.5-flash''], Inl (Error ''SyntaxError''))"
proof -
  have k: "apiKey garbled_gemini = Some ''key''" by (simp add: garbled_gemini_def)
  have g: "generateWithFallback garbled_gemini
             (buildContents (ImageContent ''image/png'' (Some ''iVBORw0KGgo='')))
           = ([''gemini-2.5-flash''], Inr \<lparr>responseText = Some ''{oops''\<rparr>)"
    by (simp add: generateWithFallback_def MODELS_TO_TRY_def garbled_gemini_def)
  have p: "responseText \<lparr>responseText = Some ''{oops''\<rparr> = Some ''{oops'' \<and> ''{oops'' \<noteq> []
           \<and> parseResult garbled_gemini ''{oops'' = Inl (Error ''SyntaxError'')"
    by (simp add: garbled_gemini_def)
  have kn: "''key'' \<noteq> []" by simp
  from parse_failure_aborts[OF k kn g, THEN conjunct2, THEN conjunct1, rule_format, OF p]
  show ?thesis by simp
qed

text \<open>
  C3 as stated fails: the first model answers with text that does not parse; the analysis
  ends with the parse error after that single attempt, although the second model would
  have answered with a valid result.
\<close>

theorem parse_failure_counterexample:
  "analyzeResume garbled_gemini (ImageContent ''image/png'' (Some ''iVBORw0KGgo=''))
     = ([''gemini-2.5-flash''], Inl (Error ''SyntaxError''))
   \<and> generateContent garbled_gemini ''gemini-2.0-flash''
        (buildContents (ImageContent ''image/png'' (Some ''iVBORw0KGgo='')))
     = Inr \<lparr>responseText = Some ''{ok}''\<rparr>
   \<and> parseResult garbled_gemini ''{ok}'' = Inr sample_result"
  by (simp add: analyzeResume_def generateWithFallback_def MODELS_TO_TRY_def garbled_gemini_def)

section \<open>The length gate and the sentinel\<close>

lemma unwrapMsg_plain:
  "\<not> startsWith m ''{'' \<Longrightarrow> \<not> startsWith m ''['' \<Longrightarrow> unwrapMsg pj m = JStr m"
  by (simp add: unwrapMsg_def)

lemma classifyMsg_tooShort:
  "classifyMsg (err_message tooShortError) =
     \<lparr>kind = Unknown, userMessage = err_message tooShortError,
      retrySeconds = Num 0, armCountdown = None\<rparr>"
  by code_simp

lemma classifyMsg_invalidDocument:
  "classifyMsg (err_message invalidDocumentError) =
     \<lparr>kind = Unknown, userMessage = err_message invalidDocumentError,
      retrySeconds = Num 0, armCountdown = None\<rparr>"
  by code_simp

lemma classify_tooShort:
  "classify pj tooShortError =
     Inr \<lparr>kind = Unknown, userMessage = err_message tooShortError,
          retrySeconds = Num 0, armCountdown = None\<rparr>"
proof -
  have "unwrapMsg pj (err_message tooShortError) = JStr (err_message tooShortError)"
    by (rule unwrapMsg_plain) (simp_all add: tooShortError_def startsWith_def)
  then show ?thesis by (simp add: classify_def classifyMsg_tooShort)
qed

lemma classify_invalidDocument:
  "classify pj invalidDocumentError =
     Inr \<lparr>kind = Unknown, userMessage = err_message invalidDocumentError,
          retrySeconds = Num 0, armCountdown = None\<rparr>"
proof -
  have "unwrapMsg pj (err_message invalidDocumentError) = JStr (err_message invalidDocumentError)"
    by (rule unwrapMsg_plain) (simp_all add: invalidDocumentError_def startsWith_def)
  then show ?thesis by (simp add: classify_def classifyMsg_invalidDocument)
qed

text \<open>
  C1. When extraction yields a text whose length is below 200, the body of the \<open>try\<close>
  throws the too-short error without invoking analyzeResume and without any remote
  call, and startAnalysis ends in the error status with that message. When extraction
  yields an image, analyzeResume is invoked with it whatever its size, and the remote
  calls are those analyzeResume makes.
\<close>

theorem length_gate:
  "(extractContentFromFile h f = Inr (TextContent c) \<and> length c < 200 \<longrightarrow>
      tryBlock h ai f = \<lparr>analyzeCalls = [], remoteCalls = [], outcome = Inl tooShortError\<rparr>
      \<and> startAnalysis pj h ai (Some f) s =
          s\<lparr>status := error, errorMsg := Some (err_message tooShortError),
            showErrorModal := True\<rparr>)
   \<and> (extractContentFromFile h f = Inr (ImageContent m d) \<longrightarrow>
      analyzeCalls (tryBlock h ai f) = [ImageContent m d]
      \<and> remoteCalls (tryBlock h ai f) = fst (analyzeResume ai (ImageContent m d)))"
proof -
  have short: "tryBlock h ai f = \<lparr>analyzeCalls = [], remoteCalls = [], outcome = Inl tooShortError\<rparr>"
    if "extractContentFromFile h f = Inr (TextContent c)" "length c < 200"
    using that by (simp add: tryBlock_def afterExtraction_def)
  have final: "startAnalysis pj h ai (Some f) s =
          s\<lparr>status := error, errorMsg := Some (err_message tooShortError),
            showErrorModal := True\<rparr>"
    if "extractContentFromFile h f = Inr (TextContent c)" "length c < 200"
    using short[OF that] by (simp add: startAnalysis_def classify_tooShort)
  have img: "analyzeCalls (tryBlock h ai f) = [ImageContent m d]
      \<and> remoteCalls (tryBlock h ai f) = fst (analyzeResume ai (ImageContent m d))"
    if "extractContentFromFile h f = Inr (ImageContent m d)"
    using that by (simp add: tryBlock_def afterExtraction_def split: prod.splits sum.splits)
  from short final img show ?thesis by blast
qed

theorem length_gate_witness:
  "extractContentFromFile sample_host short_txt = Inr (TextContent ''hello'')
   \<and> tryBlock sample_host second_gemini short_txt =
       \<lparr>analyzeCalls = [], remoteCalls = [], outcome = Inl tooShortError\<rparr>
   \<and> status (startAnalysis (\<lambda>_. None) sample_host second_gemini (Some short_txt) initial_state) = error
   \<and> extractContentFromFile sample_host png_untyped
       = Inr (ImageContent ''image/png'' (Some ''iVBORw0KGgo=''))
   \<and> analyzeCalls (tryBlock sample_host second_gemini png_untyped)
       = [ImageContent ''image/png'' (Some ''iVBORw0KGgo='')]"
proof -
  have x: "extractContentFromFile sample_host short_txt = Inr (TextContent ''hello'')"
    by code_simp
  have l: "length ''hello'' < 200" by simp
  have y: "extractContentFromFile sample_host png_untyped
       = Inr (ImageContent ''image/png'' (Some ''iVBORw0KGgo=''))"
    by code_simp
  note t = length_gate[of sample_host short_txt "''hello''" second_gemini "\<lambda>_. None" initial_state,
              THEN conjunct1, THEN mp, OF conjI[OF x l]]
  note i = length_gate[of sample_host png_untyped _ second_gemini _ _ "''image/png''" "Some ''iVBORw0KGgo=''",
              THEN conjunct2, THEN mp, OF y]
  from t i x y show ?thesis by simp
qed

text \<open>
  C2. Let extraction succeed, the length gate pass and analyzeResume return a parsed
  result. If that result has \<open>overallScore\<close> 0 and an \<open>overallJustification\<close> starting
  with \<open>INVALID_RESUME\<close>, the pipeline throws the invalid-document error and ends in the
  error status with the stored result untouched; otherwise the parsed result is stored
  as it is and the status is success.
\<close>

theorem sentinel_check:
  assumes "extractContentFromFile h f = Inr content"
      and "case content of TextContent c \<Rightarrow> 200 \<le> length c | ImageContent m d \<Rightarrow> True"
      and "analyzeResume ai content = (tried, Inr analysis)"
  shows "(overallScore analysis = 0
            \<and> (\<exists>rest. overallJustification analysis = ''INVALID_RESUME'' @ rest) \<longrightarrow>
          outcome (tryBlock h ai f) = Inl invalidDocumentError
          \<and> startAnalysis pj h ai (Some f) s =
              s\<lparr>status := error, errorMsg := Some (err_message invalidDocumentError),
                showErrorModal := True\<rparr>)
       \<and> (\<not> (overallScore analysis = 0
               \<and> (\<exists>rest. overallJustification analysis = ''INVALID_RESUME'' @ rest)) \<longrightarrow>
          outcome (tryBlock h ai f) = Inr analysis
          \<and> startAnalysis pj h ai (Some f) s =
              s\<lparr>status := success, errorMsg := None, result := Some analysis\<rparr>)"
proof -
  have sent: "isSentinel analysis \<longleftrightarrow>
      overallScore analysis = 0 \<and> (\<exists>rest. overallJustification analysis = ''INVALID_RESUME'' @ rest)"
    by (simp add: isSentinel_def startsWith_iff)
  have gate: "\<not> (case content of TextContent c \<Rightarrow> length c < 200 | ImageContent x xa \<Rightarrow> False)"
    using assms(2) by (cases content) auto
  have run: "tryBlock h ai f =
      \<lparr>analyzeCalls = [content], remoteCalls = tried,
       outcome = (if isSentinel analysis then Inl invalidDocumentError else Inr analysis)\<rparr>"
    using assms(1,3) gate by (simp add: tryBlock_def afterExtraction_def)
  have a: "outcome (tryBlock h ai f) = Inl invalidDocumentError
          \<and> startAnalysis pj h ai (Some f) s =
              s\<lparr>status := error, errorMsg := Some (err_message invalidDocumentError),
                showErrorModal := True\<rparr>" if "isSentinel analysis"
    using that by (simp add: run startAnalysis_def classify_invalidDocument)
  have b: "outcome (tryBlock h ai f) = Inr analysis
          \<and> startAnalysis pj h ai (Some f) s =
              s\<lparr>status := success, errorMsg := None, result := Some analysis\<rparr>"
    if "\<not> isSentinel analysis"
    using that by (simp add: run startAnalysis_def)
  from a b show ?thesis unfolding sent by blast
qed

theorem sentinel_check_witness:
  "outcome (tryBlock sample_host sentinel_gemini png_untyped) = Inl invalidDocumentError
   \<and> result (startAnalysis (\<lambda>_. None) sample_host sentinel_gemini (Some png_untyped) initial_state) = None
   \<and> status (startAnalysis (\<lambda>_. None) sample_host sentinel_gemini (Some png_untyped) initial_state) = error
   \<and> outcome (tryBlock sample_host second_gemini png_untyped) = Inr sample_result
   \<and> startAnalysis (\<lambda>_. None) sample_host second_gemini (Some png_untyped) initial_state
       = initial_state\<lparr>status := success, errorMsg := None, result := Some sample_result\<rparr>"
proof -
  have y: "extractContentFromFile sample_host png_untyped
       = Inr (ImageContent ''image/png'' (Some ''iVBORw0KGgo=''))"
    by code_simp
  have g: "case ImageContent ''image/png'' (Some ''iVBORw0KGgo='') of
             TextContent c \<Rightarrow> 200 \<le> length c | ImageContent m d \<Rightarrow> True"
    by simp
  have a1: "analyzeResume sentinel_gemini (ImageContent ''image/png'' (Some ''iVBORw0KGgo=''))
          = ([''gemini-2.5-flash''], Inr sentinel_result)"
    by (simp add: analyzeResume_def generateWithFallback_def MODELS_TO_TRY_def sentinel_gemini_def)
  have a2: "analyzeResume second_gemini (ImageContent ''image/png'' (Some ''iVBORw0KGgo=''))
          = ([''gemini-2.5-flash'', ''gemini-2.0-flash''], Inr sample_result)"
    by (simp add: analyzeResume_def generateWithFallback_def MODELS_TO_TRY_def second_gemini_def)
  have s1: "overallScore sentinel_result = 0
            \<and> (\<exists>rest. overallJustification sentinel_result = ''INVALID_RESUME'' @ rest)"
    by (simp add: sentinel_result_def)
  have s2: "\<not> (overallScore sample_result = 0
            \<and> (\<exists>rest. overallJustification sample_result = ''INVALID_RESUME'' @ rest))"
    by (simp add: sample_result_def)
  note t1 = sentinel_check[OF y g a1, of "\<lambda>_. None" initial_state, THEN conjunct1, THEN mp, OF s1]
  note t2 = sentinel_check[OF y g a2, of "\<lambda>_. None" initial_state, THEN conjunct2, THEN mp, OF s2]
  from t1 t2 show ?thesis by (simp add: initial_state_def)
qed

section \<open>Paginated extraction\<close>

lemma readPages_all:
  assumes "\<forall>i. i0 \<le> i \<and> i \<le> numPages pdf \<longrightarrow> getPage pdf i = Inr (items i)"
  shows "readPages pdf i0 acc =
           Inr (acc @ concat (map (\<lambda>i. join_str '' '' (items i) @ [CHR 0x0A])
                                  [i0..<Suc (numPages pdf)]))"
  using assms
proof (induction pdf i0 acc rule: readPages.induct)
  case (1 pdf i fullText)
  show ?case
  proof (cases "i \<le> numPages pdf")
    case False
    then show ?thesis by (subst readPages.simps) simp
  next
    case True
    have page: "getPage pdf i = Inr (items i)" using "1.prems" True by simp
    have rest: "\<forall>j. Suc i \<le> j \<and> j \<le> numPages pdf \<longrightarrow> getPage pdf j = Inr (items j)"
      using "1.prems" by simp
    have ih: "readPages pdf (Suc i) (fullText @ join_str '' '' (items i) @ [CHR 0x0A]) =
           Inr ((fullText @ join_str '' '' (items i) @ [CHR 0x0A]) @
                concat (map (\<lambda>i. join_str '' '' (items i) @ [CHR 0x0A])
                            [Suc i..<Suc (numPages pdf)]))"
      using "1.IH"[OF True page rest] .
    have upt: "[i..<Suc (numPages pdf)] = i # [Suc i..<Suc (numPages pdf)]"
      using True by (simp add: upt_conv_Cons)
    show ?thesis
      by (subst readPages.simps)
         (simp only: True page ih upt if_True sum.case list.map concat.simps append_assoc)
  qed
qed


text \<open>
  C7. When the document library is loaded, the document opens and every page from 1 to
  \<open>numPages\<close> yields its text items, readPdfFile returns the pages in ascending order
  from page 1, each as its items joined by single spaces and followed by one newline. A
  document of three pages whose texts are A, B and C gives exactly
  \<open>A\<newline>B\<newline>C\<newline>\<close> with newlines after A, B and C.
\<close>

theorem pdf_pages_in_order:
  assumes "pdfjsLib h = Some getDocument" and "getDocument f = Inr pdf"
      and "\<forall>i. 1 \<le> i \<and> i \<le> numPages pdf \<longrightarrow> getPage pdf i = Inr (items i)"
  shows "readPdfFile h f =
           Inr (concat (map (\<lambda>i. join_str '' '' (items i) @ ''\<newline>'') [1..<Suc (numPages pdf)]))
       \<and> (numPages pdf = 3 \<longrightarrow>
            readPdfFile h f =
              Inr (join_str '' '' (items 1) @ ''\<newline>'' @ join_str '' '' (items 2) @ ''\<newline>''
                   @ join_str '' '' (items 3) @ ''\<newline>''))"
proof -
  have "readPages pdf 1 [] =
      Inr ([] @ concat (map (\<lambda>i. join_str '' '' (items i) @ [CHR 0x0A]) [1..<Suc (numPages pdf)]))"
    using assms(3) by (rule readPages_all)
  then have all: "readPdfFile h f =
      Inr (concat (map (\<lambda>i. join_str '' '' (items i) @ ''\<newline>'') [1..<Suc (numPages pdf)]))"
    by (simp only: readPdfFile_def assms(1,2) option.case sum.case append_Nil)
  have three: "[1..<Suc 3] = [1, 2, 3]" by (simp add: upt_rec)
  have "readPdfFile h f =
              Inr (join_str '' '' (items 1) @ ''\<newline>'' @ join_str '' '' (items 2) @ ''\<newline>''
                   @ join_str '' '' (items 3) @ ''\<newline>'')" if n: "numPages pdf = 3"
    using all unfolding n three by (simp only: list.map concat.simps append_Nil2 append_assoc)
  with all show ?thesis by blast
qed

theorem pdf_pages_in_order_witness:
  "readPdfFile sample_host pdf_upper = Inr ''A\<newline>B\<newline>C\<newline>''
   \<and> extractContentFromFile sample_host pdf_upper = Inr (TextContent ''A\<newline>B\<newline>C\<newline>'')"
proof -
  have l: "pdfjsLib sample_host = Some (\<lambda>f. Inr three_pages)" by (simp add: sample_host_def)
  have d: "(\<lambda>f. Inr three_pages) pdf_upper = (Inr three_pages :: js_error + pdf_doc)" by simp
  have p: "\<forall>i. 1 \<le> i \<and> i \<le> numPages three_pages \<longrightarrow>
             getPage three_pages i =
               Inr ((\<lambda>i. if i = 1 then [''A''] else if i = 2 then [''B''] else [''C'']) i)"
    by (simp add: three_pages_def)
  have n: "numPages three_pages = 3" by (simp add: three_pages_def)
  have r: "readPdfFile sample_host pdf_upper = Inr ''A\<newline>B\<newline>C\<newline>''"
    using pdf_pages_in_order[OF l d p, THEN conjunct2, THEN mp, OF n] by simp
  have e: "extensionOf (file_name pdf_upper) = ''pdf''" by code_simp
  have t: "file_type pdf_upper = ''application/pdf''" by (simp add: pdf_upper_def)
  have "extractContentFromFile sample_host pdf_upper = Inr (TextContent ''A\<newline>B\<newline>C\<newline>'')"
    unfolding extractContentFromFile_def Let_def e t
    by (simp add: r asText_def imageExtensions_def startsWith_def)
  with r show ?thesis by simp
qed

section \<open>Image extraction\<close>

lemma split_chr_nonempty: "split_chr sep s \<noteq> []"
  by (induction s) (auto split: list.splits)

lemma split_chr_none: "sep \<notin> set s \<Longrightarrow> split_chr sep s = [s]"
  by (induction s) auto

lemma split_chr_append:
  "split_chr sep (a @ sep # b) = split_chr sep a @ split_chr sep b"
proof (induction a)
  case Nil
  then show ?case by simp
next
  case (Cons x a)
  obtain p ps where sp: "split_chr sep a = p # ps"
    using split_chr_nonempty[of sep a] by (cases "split_chr sep a") auto
  show ?case using Cons sp by simp
qed

lemma lazyUntilSemi_here:
  "\<forall>c\<in>set m. c \<noteq> CHR '';'' \<and> \<not> isLineTerminator c \<Longrightarrow>
     lazyUntilSemi (m @ CHR '';'' # rest) = Some m"
  by (induction m) auto

lemma mimeMatch_data:
  assumes "\<forall>c\<in>set m. c \<noteq> CHR '';'' \<and> \<not> isLineTerminator c"
  shows "mimeMatch (''data:'' @ m @ '';base64'') = Some m"
proof -
  have "lazyUntilSemi (m @ CHR '';'' # ''base64'') = Some m"
    using assms by (rule lazyUntilSemi_here)
  then show ?thesis by simp
qed

text \<open>
  C8. Let the reader deliver a data URI: a prefix without a comma, a comma, and the base64
  payload (without a comma). readImageFile returns the payload as the data, and as MIME
  type the declared type of the file when that is not empty; otherwise the type \<open>m\<close>
  captured from a prefix \<open>data:m;base64\<close>; otherwise, when the pattern finds nothing or
  an empty type in the prefix, the default \<open>image/jpeg\<close>.
\<close>

theorem image_extraction:
  assumes "dataURL f = Inr (pre @ CHR '','' # payload)"
      and "CHR '','' \<notin> set pre" and "CHR '','' \<notin> set payload"
  shows "(file_type f \<noteq> [] \<longrightarrow>
            readImageFile f = Inr (ImageContent (file_type f) (Some payload)))
       \<and> (file_type f = [] \<and> pre = ''data:'' @ m @ '';base64'' \<and> m \<noteq> []
            \<and> (\<forall>c\<in>set m. c \<noteq> CHR '';'' \<and> \<not> isLineTerminator c) \<longrightarrow>
            readImageFile f = Inr (ImageContent m (Some payload)))
       \<and> (file_type f = [] \<and> (mimeMatch pre = None \<or> mimeMatch pre = Some []) \<longrightarrow>
            readImageFile f = Inr (ImageContent ''image/jpeg'' (Some payload)))"
proof -
  have sp: "split_chr CHR '','' (pre @ CHR '','' # payload) = [pre, payload]"
    using assms(2,3) by (simp add: split_chr_append split_chr_none)
  have rd: "readImageFile f =
      Inr (ImageContent
             (let finalMimeType =
                    (if file_type f = [] \<and> pre \<noteq> []
                     then (case mimeMatch pre of Some m \<Rightarrow> m | None \<Rightarrow> file_type f)
                     else file_type f)
              in if finalMimeType = [] then ''image/jpeg'' else finalMimeType)
             (Some payload))"
    by (simp add: readImageFile_def assms(1) sp Let_def)
  have a: "readImageFile f = Inr (ImageContent (file_type f) (Some payload))"
    if "file_type f \<noteq> []"
    using that by (simp add: rd)
  have b: "readImageFile f = Inr (ImageContent m (Some payload))"
    if "file_type f = []" "pre = ''data:'' @ m @ '';base64''" "m \<noteq> []"
       "\<forall>c\<in>set m. c \<noteq> CHR '';'' \<and> \<not> isLineTerminator c"
  proof -
    have "mimeMatch pre = Some m" unfolding that(2) using that(4) by (rule mimeMatch_data)
    moreover have "pre \<noteq> []" using that(2) by simp
    ultimately show ?thesis using that(1,3) by (simp add: rd)
  qed
  have c: "readImageFile f = Inr (ImageContent ''image/jpeg'' (Some payload))"
    if "file_type f = []" "mimeMatch pre = None \<or> mimeMatch pre = Some []"
    using that by (auto simp: rd)
  from a b c show ?thesis by blast
qed

theorem image_extraction_witness:
  "readImageFile png_untyped = Inr (ImageContent ''image/png'' (Some ''iVBORw0KGgo=''))
   \<and> readImageFile jpg_bare = Inr (ImageContent ''image/jpeg'' (Some ''/9j/4AAQ''))
   \<and> readImageFile jpg_typed = Inr (ImageContent ''image/webp'' (Some ''UklGRg==''))"
proof -
  have u1: "dataURL png_untyped = Inr (''data:image/png;base64'' @ CHR '','' # ''iVBORw0KGgo='')"
    by (simp add: png_untyped_def)
  have h1: "file_type png_untyped = [] \<and> ''data:image/png;base64'' = ''data:'' @ ''image/png'' @ '';base64''
      \<and> ''image/png'' \<noteq> [] \<and> (\<forall>c\<in>set ''image/png''. c \<noteq> CHR '';'' \<and> \<not> isLineTerminator c)"
    by (simp add: png_untyped_def isLineTerminator_def)
  have r1: "readImageFile png_untyped = Inr (ImageContent ''image/png'' (Some ''iVBORw0KGgo=''))"
    by (rule image_extraction[OF u1, THEN conjunct2, THEN conjunct1, THEN mp, OF _ _ h1]) simp_all
  have u2: "dataURL jpg_bare = Inr (''data'' @ CHR '','' # ''/9j/4AAQ'')"
    by (simp add: jpg_bare_def)
  have h2: "file_type jpg_bare = [] \<and> (mimeMatch ''data'' = None \<or> mimeMatch ''data'' = Some [])"
    by (simp add: jpg_bare_def)
  have r2: "readImageFile jpg_bare = Inr (ImageContent ''image/jpeg'' (Some ''/9j/4AAQ''))"
    by (rule image_extraction[OF u2, THEN conjunct2, THEN conjunct2, THEN mp, OF _ _ h2]) simp_all
  have u3: "dataURL jpg_typed = Inr (''data:image/webp;base64'' @ CHR '','' # ''UklGRg=='')"
    by (simp add: jpg_typed_def)
  have h3: "file_type jpg_typed \<noteq> []" by (simp add: jpg_typed_def)
  have "readImageFile jpg_typed = Inr (ImageContent (file_type jpg_typed) (Some ''UklGRg==''))"
    by (rule image_extraction[OF u3, THEN conjunct1, THEN mp, OF _ _ h3]) simp_all
  then have r3: "readImageFile jpg_typed = Inr (ImageContent ''image/webp'' (Some ''UklGRg==''))"
    by (simp add: jpg_typed_def)
  from r1 r2 r3 show ?thesis by simp
qed

section \<open>Dispatch by extension\<close>

lemma extensionOf_after_dot:
  "CHR ''.'' \<notin> set b \<Longrightarrow> extensionOf (a @ CHR ''.'' # b) = toLowerCase b"
  by (simp add: extensionOf_def split_chr_append split_chr_none split_chr_nonempty)

lemma extensionOf_no_dot:
  "CHR ''.'' \<notin> set name \<Longrightarrow> extensionOf name = toLowerCase name"
  by (simp add: extensionOf_def split_chr_none)

lemma extensionOf_RESUME: "extensionOf ''RESUME.PDF'' = ''pdf''"
  by code_simp

text \<open>
  C10, as the source has it. The extension is the lower-cased part of the file name after
  its last dot, and the whole lower-cased name when the name has no dot. A file whose
  extension is in the image set or whose declared MIME type starts with \<open>image/\<close> goes
  to the image handler. Every other file is dispatched on its extension alone: \<open>txt\<close>
  to the plain-text handler, \<open>pdf\<close> to the handler for paginated documents, \<open>docx\<close>
  to the handler for structured documents, in whatever letter case the name has them
  (so \<open>RESUME.PDF\<close> is read as a paginated document), and anything else is rejected
  as unsupported. This holds for names with a dot, by the part after the last dot, and
  for names without a dot, by the whole name: such a file is rejected unless it goes
  to the image handler or its lower-cased name is itself \<open>txt\<close>, \<open>pdf\<close> or \<open>docx\<close>.
\<close>

theorem extension_dispatch:
  "(name = a @ CHR ''.'' # b \<and> CHR ''.'' \<notin> set b \<longrightarrow> extensionOf name = toLowerCase b)
   \<and> (CHR ''.'' \<notin> set name \<longrightarrow> extensionOf name = toLowerCase name)
   \<and> (file_name f = ''RESUME.PDF'' \<and> \<not> startsWith (file_type f) ''image/'' \<longrightarrow>
        extractContentFromFile h f = asText (readPdfFile h f))
   \<and> (extensionOf (file_name f) \<in> set imageExtensions \<or> startsWith (file_type f) ''image/'' \<longrightarrow>
        extractContentFromFile h f = readImageFile f)
   \<and> (extensionOf (file_name f) \<notin> set imageExtensions
        \<and> \<not> startsWith (file_type f) ''image/'' \<longrightarrow>
        extractContentFromFile h f =
          (if extensionOf (file_name f) = ''txt'' then asText (readTextFile f)
           else if extensionOf (file_name f) = ''pdf'' then asText (readPdfFile h f)
           else if extensionOf (file_name f) = ''docx'' then asText (readDocxFile h f)
           else Inl (Error (''Unsupported file type: .'' @ extensionOf (file_name f)))))
   \<and> (file_name f = a @ CHR ''.'' # b \<and> CHR ''.'' \<notin> set b
        \<and> toLowerCase b \<notin> set imageExtensions
        \<and> \<not> startsWith (file_type f) ''image/'' \<longrightarrow>
        extractContentFromFile h f =
          (if toLowerCase b = ''txt'' then asText (readTextFile f)
           else if toLowerCase b = ''pdf'' then asText (readPdfFile h f)
           else if toLowerCase b = ''docx'' then asText (readDocxFile h f)
           else Inl (Error (''Unsupported file type: .'' @ toLowerCase b))))
   \<and> (CHR ''.'' \<notin> set (file_name f) \<and> \<not> startsWith (file_type f) ''image/''
        \<and> toLowerCase (file_name f) \<notin> set imageExtensions \<longrightarrow>
        extractContentFromFile h f =
          (if toLowerCase (file_name f) = ''txt'' then asText (readTextFile f)
           else if toLowerCase (file_name f) = ''pdf'' then asText (readPdfFile h f)
           else if toLowerCase (file_name f) = ''docx'' then asText (readDocxFile h f)
           else Inl (Error (''Unsupported file type: .'' @ toLowerCase (file_name f)))))"
proof -
  have 1: "name = a @ CHR ''.'' # b \<and> CHR ''.'' \<notin> set b \<longrightarrow> extensionOf name = toLowerCase b"
    using extensionOf_after_dot by blast
  have 2: "CHR ''.'' \<notin> set name \<longrightarrow> extensionOf name = toLowerCase name"
    using extensionOf_no_dot by blast
  have 3: "extractContentFromFile h f = asText (readPdfFile h f)"
    if "file_name f = ''RESUME.PDF''" "\<not> startsWith (file_type f) ''image/''"
    unfolding extractContentFromFile_def Let_def that(1) extensionOf_RESUME
    using that(2) by (simp add: imageExtensions_def)
  have 4: "extractContentFromFile h f = readImageFile f"
    if "extensionOf (file_name f) \<in> set imageExtensions \<or> startsWith (file_type f) ''image/''"
    using that by (simp add: extractContentFromFile_def Let_def)
  have 5: "extractContentFromFile h f =
          (if extensionOf (file_name f) = ''txt'' then asText (readTextFile f)
           else if extensionOf (file_name f) = ''pdf'' then asText (readPdfFile h f)
           else if extensionOf (file_name f) = ''docx'' then asText (readDocxFile h f)
           else Inl (Error (''Unsupported file type: .'' @ extensionOf (file_name f))))"
    if "extensionOf (file_name f) \<notin> set imageExtensions"
       "\<not> startsWith (file_type f) ''image/''"
    using that by (simp add: extractContentFromFile_def Let_def)
  have 6: "extractContentFromFile h f =
          (if toLowerCase b = ''txt'' then asText (readTextFile f)
           else if toLowerCase b = ''pdf'' then asText (readPdfFile h f)
           else if toLowerCase b = ''docx'' then asText (readDocxFile h f)
           else Inl (Error (''Unsupported file type: .'' @ toLowerCase b)))"
    if "file_name f = a @ CHR ''.'' # b" "CHR ''.'' \<notin> set b"
       "toLowerCase b \<notin> set imageExtensions" "\<not> startsWith (file_type f) ''image/''"
  proof -
    have e: "extensionOf (file_name f) = toLowerCase b"
      unfolding that(1) using that(2) by (rule extensionOf_after_dot)
    show ?thesis using 5[unfolded e, OF that(3,4)] .
  qed
  have 7: "extractContentFromFile h f =
          (if toLowerCase (file_name f) = ''txt'' then asText (readTextFile f)
           else if toLowerCase (file_name f) = ''pdf'' then asText (readPdfFile h f)
           else if toLowerCase (file_name f) = ''docx'' then asText (readDocxFile h f)
           else Inl (Error (''Unsupported file type: .'' @ toLowerCase (file_name f))))"
    if "CHR ''.'' \<notin> set (file_name f)" "\<not> startsWith (file_type f) ''image/''"
       "toLowerCase (file_name f) \<notin> set imageExtensions"
    using 5[unfolded extensionOf_no_dot[OF that(1)], OF that(3,2)] .
  from 1 2 3 4 5 6 7 show ?thesis by blast
qed

text \<open>The files \<open>RESUME.PDF\<close> and \<open>Notes.TXT\<close> reach their handlers, a file with a type
  starting with \<open>image/\<close> reaches the image handler, and \<open>Resume\<close> and \<open>cv.odt\<close> are
  rejected.\<close>

theorem extension_dispatch_witness:
  "extensionOf ''RESUME.PDF'' = ''pdf''
   \<and> extensionOf ''Resume'' = ''resume''
   \<and> extractContentFromFile sample_host pdf_upper = asText (readPdfFile sample_host pdf_upper)
   \<and> extractContentFromFile sample_host jpg_typed = readImageFile jpg_typed
   \<and> extractContentFromFile sample_host (short_txt\<lparr>file_name := ''Notes.TXT''\<rparr>)
       = Inr (TextContent ''hello'')
   \<and> extractContentFromFile sample_host (short_txt\<lparr>file_name := ''cv.odt''\<rparr>)
       = Inl (Error ''Unsupported file type: .odt'')
   \<and> extractContentFromFile sample_host \<lparr>file_name = ''Resume'', file_type = [],
         dataURL = Inr ''data:;base64,aGVsbG8='', textData = Inr ''hello''\<rparr>
       = Inl (Error ''Unsupported file type: .resume'')"
proof -
  have l: "toLowerCase ''PDF'' = ''pdf''" by code_simp
  have l2: "toLowerCase ''Resume'' = ''resume''" by code_simp
  have l3: "toLowerCase ''TXT'' = ''txt''" by code_simp
  have l4: "toLowerCase ''odt'' = ''odt''" by code_simp
  have a: "extensionOf ''RESUME.PDF'' = ''pdf''"
    using extension_dispatch[of "''RESUME.PDF''" "''RESUME''" "''PDF''", THEN conjunct1]
    by (simp add: l)
  have b: "extensionOf ''Resume'' = ''resume''"
    using extension_dispatch[of "''Resume''", THEN conjunct2, THEN conjunct1]
    by (simp add: l2)
  have c: "extractContentFromFile sample_host pdf_upper = asText (readPdfFile sample_host pdf_upper)"
    using extension_dispatch[of _ _ _ pdf_upper sample_host, THEN conjunct2, THEN conjunct2, THEN conjunct1]
    by (simp add: pdf_upper_def startsWith_def)
  have d: "extractContentFromFile sample_host jpg_typed = readImageFile jpg_typed"
    using extension_dispatch[of _ _ _ jpg_typed sample_host, THEN conjunct2, THEN conjunct2,
            THEN conjunct2, THEN conjunct1]
    by (simp add: jpg_typed_def startsWith_def)
  have t: "extractContentFromFile sample_host (short_txt\<lparr>file_name := ''Notes.TXT''\<rparr>)
       = Inr (TextContent ''hello'')"
    using extension_dispatch[of _ "''Notes''" "''TXT''" "short_txt\<lparr>file_name := ''Notes.TXT''\<rparr>"
            sample_host, THEN conjunct2, THEN conjunct2, THEN conjunct2, THEN conjunct2,
            THEN conjunct2, THEN conjunct1]
    by (simp add: l3 short_txt_def startsWith_def imageExtensions_def asText_def readTextFile_def)
  have o: "extractContentFromFile sample_host (short_txt\<lparr>file_name := ''cv.odt''\<rparr>)
       = Inl (Error ''Unsupported file type: .odt'')"
    using extension_dispatch[of _ "''cv''" "''odt''" "short_txt\<lparr>file_name := ''cv.odt''\<rparr>"
            sample_host, THEN conjunct2, THEN conjunct2, THEN conjunct2, THEN conjunct2,
            THEN conjunct2, THEN conjunct1]
    by (simp add: l4 short_txt_def startsWith_def imageExtensions_def)
  have e: "extractContentFromFile sample_host \<lparr>file_name = ''Resume'', file_type = [],
         dataURL = Inr ''data:;base64,aGVsbG8='', textData = Inr ''hello''\<rparr>
       = Inl (Error ''Unsupported file type: .resume'')"
    using extension_dispatch[of _ _ _ "\<lparr>file_name = ''Resume'', file_type = [],
         dataURL = Inr ''data:;base64,aGVsbG8='', textData = Inr ''hello''\<rparr>" sample_host,
         THEN conjunct2, THEN conjunct2, THEN conjunct2, THEN conjunct2, THEN conjunct2,
         THEN conjunct2]
    by (simp add: l2 startsWith_def imageExtensions_def)
  from a b c d t o e show ?thesis by blast
qed

text \<open>
  C10 as stated fails: the file named \<open>txt\<close> has no dot in its name, its name is not in
  the image set and its declared type is empty, and it is read as plain text, not
  rejected.
\<close>

theorem extension_dispatch_counterexample:
  "CHR ''.'' \<notin> set (file_name named_txt)
   \<and> toLowerCase (file_name named_txt) \<notin> set imageExtensions
   \<and> \<not> startsWith (file_type named_txt) ''image/''
   \<and> extractContentFromFile sample_host named_txt = Inr (TextContent ''hello'')"
  by code_simp

section \<open>The retry countdown\<close>







end
